theory Spec2Isabelle
  imports Complex_Main "HOL-Library.AList" "HOL-Library.Word"
begin

section \<open>JavaScript values and arithmetic used by the grid\<close>

text \<open>
  Coordinates, chunk sizes and counters are JavaScript numbers holding integers; they
  are modelled as mathematical integers (\<open>int\<close>, \<open>nat\<close> for counters that start at 0
  and are only incremented), which is what doubles are below \<open>2 ^ 53\<close>.

  A read of a \<open>Uint8Array\<close> gives a number in \<open>0..255\<close>, or \<open>undefined\<close> when the
  index is outside the array; \<open>getCell\<close> returns what that read gives.
\<close>

datatype jsval = Undefined | Num int

text \<open>JavaScript truthiness of such a value: \<open>undefined\<close> and \<open>0\<close> are falsy.\<close>

fun truthy :: "jsval \<Rightarrow> bool" where
  "truthy Undefined = False"
| "truthy (Num n) = (n \<noteq> 0)"

text \<open>\<open>Math.floor(x / c)\<close>: the quotient is taken in the reals and then rounded down.\<close>

definition floor_div :: "int \<Rightarrow> int \<Rightarrow> int" where
  "floor_div x c = \<lfloor>real_of_int x / real_of_int c\<rfloor>"

text \<open>\<open>a % b\<close>: the remainder of JavaScript truncates, its sign is the dividend's.\<close>

definition js_rem :: "int \<Rightarrow> int \<Rightarrow> int" where
  "js_rem a b = sgn a * (\<bar>a\<bar> mod \<bar>b\<bar>)"

text \<open>\<open>((x % c) + c) % c\<close>, the local offset of a coordinate inside its chunk.\<close>

definition local_offset :: "int \<Rightarrow> int \<Rightarrow> int" where
  "local_offset x c = js_rem (js_rem x c + c) c"

section \<open>Numbers as strings\<close>

text \<open>
  The decimal string of an integer, as a template literal prints it: the digits, after a
  minus sign for a negative number.
\<close>

function show_nat :: "nat \<Rightarrow> string" where
  "show_nat n = (if n < 10 then [char_of (48 + n)] else show_nat (n div 10) @ [char_of (48 + n mod 10)])"
  by pat_completeness auto
termination
  by (relation "measure id") auto

definition show_int :: "int \<Rightarrow> string" where
  "show_int i = (if i < 0 then CHR ''-'' # show_nat (nat (- i)) else show_nat (nat i))"

text \<open>
  \<open>Number(str)\<close> on such a string: the value of the digits, negated after a minus sign.
  (On a string that is not a number \<open>Number\<close> gives \<open>NaN\<close>; the keys of a chunk map are
  never such strings, see \<open>grid_ok\<close>.)
\<close>

definition read_nat :: "string \<Rightarrow> nat" where
  "read_nat str = fold (\<lambda>c n. 10 * n + (of_char c - 48)) str 0"

definition read_int :: "string \<Rightarrow> int" where
  "read_int str =
     (case str of [] \<Rightarrow> 0
      | c # r \<Rightarrow> if c = CHR ''-'' then - int (read_nat r) else int (read_nat str))"

text \<open>\<open>str.split(',')\<close>: the pieces of the string between its commas.\<close>

fun split_comma :: "string \<Rightarrow> string list" where
  "split_comma [] = [[]]"
| "split_comma (c # cs) =
     (if c = CHR '','' then [] # split_comma cs
      else (case split_comma cs of [] \<Rightarrow> [[c]] | piece # pieces \<Rightarrow> (c # piece) # pieces))"

section \<open>Typed arrays\<close>

type_synonym chunk = "8 word list"

text \<open>\<open>new Uint8Array(n)\<close>: \<open>n\<close> zero bytes.\<close>

definition new_chunk :: "int \<Rightarrow> chunk" where
  "new_chunk n = replicate (nat n) 0"

text \<open>\<open>chunk[i]\<close>: the byte as a number, \<open>undefined\<close> outside the array.\<close>

definition typed_get :: "chunk \<Rightarrow> int \<Rightarrow> jsval" where
  "typed_get c i = (if 0 \<le> i \<and> i < int (length c) then Num (uint (c ! nat i)) else Undefined)"

text \<open>
  \<open>chunk[i] = v\<close>: the number is reduced modulo 256 (the conversion to an unsigned byte);
  a write outside the array is ignored.
\<close>

definition typed_set :: "chunk \<Rightarrow> int \<Rightarrow> int \<Rightarrow> chunk" where
  "typed_set c i v = (if 0 \<le> i \<and> i < int (length c) then c[nat i := word_of_int v] else c)"

section \<open>ChunkManager\<close>

text \<open>
  The chunk map is a JavaScript \<open>Map\<close>: it iterates in insertion order, and \<open>set\<close> on a
  key already present keeps the key's place. That is an association list with
  \<open>AList.update\<close>. The key of chunk \<open>(cx, cy)\<close> is the string \<open>cx,cy\<close> of the two decimal
  numbers. (The \<open>keyCache\<close> map of the class is never read or written.)
\<close>

type_synonym chunk_key = string

record ChunkManager =
  chunkSize :: int
  chunks :: "(chunk_key \<times> chunk) list"

definition new_ChunkManager :: "int \<Rightarrow> ChunkManager" where
  "new_ChunkManager cs = \<lparr>chunkSize = cs, chunks = []\<rparr>"

definition getChunkKey :: "int \<Rightarrow> int \<Rightarrow> chunk_key" where
  "getChunkKey cx cy = show_int cx @ '','' @ show_int cy"

text \<open>
  \<open>const [cx, cy] = key.split(',').map(Number)\<close>, as \<open>computeNextGen\<close> reads a key: the
  first two pieces as numbers. (A key with no comma would leave \<open>cy\<close> undefined; the keys
  of a chunk map all have two pieces, see \<open>grid_ok\<close>.)
\<close>

definition read_key :: "chunk_key \<Rightarrow> int \<times> int" where
  "read_key key =
     (case map read_int (split_comma key) of cx # cy # rest \<Rightarrow> (cx, cy) | _ \<Rightarrow> (0, 0))"

definition getChunk :: "ChunkManager \<Rightarrow> int \<Rightarrow> int \<Rightarrow> chunk option" where
  "getChunk g cx cy = map_of (chunks g) (getChunkKey cx cy)"

text \<open>\<open>getOrCreateChunk\<close> returns the chunk and the manager, with the chunk stored if it was absent.\<close>

definition getOrCreateChunk :: "ChunkManager \<Rightarrow> int \<Rightarrow> int \<Rightarrow> chunk \<times> ChunkManager" where
  "getOrCreateChunk g cx cy =
     (let key = getChunkKey cx cy in
      case map_of (chunks g) key of
        None \<Rightarrow>
          (let chunk = new_chunk (chunkSize g * chunkSize g)
           in (chunk, g\<lparr>chunks := AList.update key chunk (chunks g)\<rparr>))
      | Some chunk \<Rightarrow> (chunk, g))"

text \<open>
  \<open>setCell\<close> writes into the array object that the map holds, so the stored chunk is
  replaced by the written one, at its place.
\<close>

definition setCell :: "ChunkManager \<Rightarrow> int \<Rightarrow> int \<Rightarrow> int \<Rightarrow> ChunkManager" where
  "setCell g x y state =
     (let cx = floor_div x (chunkSize g);
          cy = floor_div y (chunkSize g);
          lx = local_offset x (chunkSize g);
          ly = local_offset y (chunkSize g);
          (chunk, g') = getOrCreateChunk g cx cy
      in g'\<lparr>chunks := AList.update (getChunkKey cx cy)
                         (typed_set chunk (ly * chunkSize g + lx) state) (chunks g')\<rparr>)"

text \<open>
  \<open>getCell\<close> with the manager threaded through, as for every method: the value read and
  the manager after the call.
\<close>

definition getCell_run :: "ChunkManager \<Rightarrow> int \<Rightarrow> int \<Rightarrow> jsval \<times> ChunkManager" where
  "getCell_run g x y =
     (let cx = floor_div x (chunkSize g);
          cy = floor_div y (chunkSize g)
      in case map_of (chunks g) (getChunkKey cx cy) of
           None \<Rightarrow> (Num 0, g)
         | Some chunk \<Rightarrow>
             (let lx = local_offset x (chunkSize g);
                  ly = local_offset y (chunkSize g)
              in (typed_get chunk (ly * chunkSize g + lx), g)))"

definition getCell :: "ChunkManager \<Rightarrow> int \<Rightarrow> int \<Rightarrow> jsval" where
  "getCell g x y = fst (getCell_run g x y)"

definition clear_chunks :: "ChunkManager \<Rightarrow> ChunkManager" where
  "clear_chunks g = g\<lparr>chunks := []\<rparr>"

text \<open>
  The invariant of the class: the chunk size is positive, the keys of the map are
  distinct, every key is the key string of a chunk coordinate, and every stored chunk has
  \<open>chunkSize * chunkSize\<close> cells.
\<close>

definition key_ok :: "chunk_key \<Rightarrow> bool" where
  "key_ok key \<longleftrightarrow> getChunkKey (fst (read_key key)) (snd (read_key key)) = key"

definition grid_ok :: "ChunkManager \<Rightarrow> bool" where
  "grid_ok g \<longleftrightarrow>
     0 < chunkSize g \<and> distinct (map fst (chunks g)) \<and>
     list_all (\<lambda>(k, c). key_ok k \<and> int (length c) = chunkSize g * chunkSize g) (chunks g)"

section \<open>GameOfLife: the simulation state\<close>

text \<open>
  The fields of \<open>GameOfLife\<close> that the simulation reads or writes; \<open>gChunkSize\<close> is
  its field \<open>chunkSize\<close>. The canvas, the camera, the colours and the pointer state
  belong to drawing and input, whose handlers write cells with \<open>grid.setCell\<close> and states
  0 and 1 only.
\<close>

record GameOfLife =
  gChunkSize :: int
  grid :: ChunkManager
  bornRules :: "nat set"
  surviveRules :: "nat set"
  generation :: nat
  population :: nat

text \<open>The fields as the constructor sets them, before \<open>init\<close>.\<close>

definition new_GameOfLife :: GameOfLife where
  "new_GameOfLife =
     \<lparr>gChunkSize = 32, grid = new_ChunkManager 32,
      bornRules = set [3], surviveRules = set [2, 3],
      generation = 0, population = 0\<rparr>"

text \<open>A rule preset of \<open>RULES\<close>: the arrays \<open>b\<close> and \<open>s\<close> (fields \<open>rule_b\<close>, \<open>rule_s\<close>).\<close>

record rule =
  rule_b :: "nat list"
  rule_s :: "nat list"

definition RULES :: "(string \<times> rule) list" where
  "RULES =
     [(''Conway's Life'', \<lparr>rule_b = [3], rule_s = [2, 3]\<rparr>),
      (''HighLife'', \<lparr>rule_b = [3, 6], rule_s = [2, 3]\<rparr>),
      (''Seeds'', \<lparr>rule_b = [2], rule_s = []\<rparr>),
      (''Day & Night'', \<lparr>rule_b = [3, 6, 7, 8], rule_s = [3, 4, 6, 7, 8]\<rparr>),
      (''Life without Death'', \<lparr>rule_b = [3], rule_s = [0, 1, 2, 3, 4, 5, 6, 7, 8]\<rparr>),
      (''Morley'', \<lparr>rule_b = [3, 6, 8], rule_s = [2, 4, 5]\<rparr>),
      (''Anneal'', \<lparr>rule_b = [4, 6, 7, 8], rule_s = [3, 5, 6, 7, 8]\<rparr>),
      (''Diamoeba'', \<lparr>rule_b = [3, 5, 6, 7, 8], rule_s = [5, 6, 7, 8]\<rparr>)]"

text \<open>
  \<open>applyRule\<close>: both sets are cleared and refilled, element by element. (The call of
  \<open>updateRuleUI\<close> at its end sets the checkboxes and no field of the state.)
\<close>

definition applyRule :: "rule \<Rightarrow> GameOfLife \<Rightarrow> GameOfLife" where
  "applyRule r e =
     (let e1 = e\<lparr>bornRules := {}\<rparr>;
          e2 = fold (\<lambda>n e'. e'\<lparr>bornRules := insert n (bornRules e')\<rparr>) (rule_b r) e1;
          e3 = e2\<lparr>surviveRules := {}\<rparr>
      in fold (\<lambda>n e'. e'\<lparr>surviveRules := insert n (surviveRules e')\<rparr>) (rule_s r) e3)"

text \<open>\<open>clear\<close>: the grid is emptied and both counters are reset, then the canvas is redrawn.\<close>

definition clear :: "GameOfLife \<Rightarrow> GameOfLife" where
  "clear e = e\<lparr>grid := clear_chunks (grid e), generation := 0, population := 0\<rparr>"

section \<open>computeNextGen\<close>

text \<open>
  The pairs \<open>(dx, dy)\<close> of the two nested loops \<open>for dy = -1..1\<close>, \<open>for dx = -1..1\<close>, in
  the order the loops visit them.
\<close>

definition offsets9 :: "(int \<times> int) list" where
  "offsets9 = concat (map (\<lambda>dy. map (\<lambda>dx. (dx, dy)) [-1, 0, 1]) [-1, 0, 1])"

text \<open>\<open>Set.add\<close> on a set that iterates in insertion order.\<close>

definition set_add :: "'a \<Rightarrow> 'a list \<Rightarrow> 'a list" where
  "set_add k ks = (if k \<in> set ks then ks else ks @ [k])"

text \<open>The first loop: every stored chunk coordinate and its eight neighbours.\<close>

definition chunksToCheck :: "ChunkManager \<Rightarrow> chunk_key list" where
  "chunksToCheck g =
     fold (\<lambda>key acc.
             case read_key key of (cx, cy) \<Rightarrow>
               fold (\<lambda>(dx, dy) acc'. set_add (getChunkKey (cx + dx) (cy + dy)) acc') offsets9 acc)
          (map fst (chunks g)) []"

text \<open>The neighbour count of a cell: the eight cells around it that read truthy.\<close>

definition countNeighbors :: "ChunkManager \<Rightarrow> int \<Rightarrow> int \<Rightarrow> nat" where
  "countNeighbors g gx gy =
     fold (\<lambda>(dx, dy) neighbors.
             if dx = 0 \<and> dy = 0 then neighbors
             else if truthy (getCell g (gx + dx) (gy + dy)) then neighbors + 1 else neighbors)
          offsets9 0"

text \<open>\<open>nextState\<close> of a cell: the test on the current state is \<open>state === 1\<close>.\<close>

definition nextState :: "GameOfLife \<Rightarrow> int \<Rightarrow> int \<Rightarrow> int" where
  "nextState e gx gy =
     (let neighbors = countNeighbors (grid e) gx gy;
          state = getCell (grid e) gx gy
      in if state = Num 1 then (if neighbors \<in> surviveRules e then 1 else 0)
         else (if neighbors \<in> bornRules e then 1 else 0))"

text \<open>The body of the innermost loop, on the pair of \<open>nextGrid\<close> and \<open>newPop\<close>.\<close>

definition cellStep :: "GameOfLife \<Rightarrow> int \<Rightarrow> int \<Rightarrow> ChunkManager \<times> nat \<Rightarrow> ChunkManager \<times> nat" where
  "cellStep e gx gy st =
     (case st of (nextGrid, newPop) \<Rightarrow>
        if nextState e gx gy \<noteq> 0 then (setCell nextGrid gx gy 1, newPop + 1)
        else (nextGrid, newPop))"

text \<open>The body of the loop over \<open>chunksToCheck\<close>: all cells of one chunk, row by row.\<close>

definition processChunk :: "GameOfLife \<Rightarrow> chunk_key \<Rightarrow> ChunkManager \<times> nat \<Rightarrow> ChunkManager \<times> nat" where
  "processChunk e key st =
     (case read_key key of (cx, cy) \<Rightarrow>
        let chunkBaseX = cx * gChunkSize e;
            chunkBaseY = cy * gChunkSize e
        in fold (\<lambda>ly st'. fold (\<lambda>lx st''. cellStep e (chunkBaseX + lx) (chunkBaseY + ly) st'')
                                 [0 .. gChunkSize e - 1] st')
                [0 .. gChunkSize e - 1] st)"

definition computeNextGen :: "GameOfLife \<Rightarrow> GameOfLife" where
  "computeNextGen e =
     (let nextGrid = new_ChunkManager (gChunkSize e);
          (nextGrid', newPop) = fold (processChunk e) (chunksToCheck (grid e)) (nextGrid, 0)
      in e\<lparr>grid := nextGrid', generation := generation e + 1, population := newPop\<rparr>)"

text \<open>
  The invariant of the simulation state: the grid is a well-formed chunk manager built
  with the engine's chunk size.
\<close>

definition engine_ok :: "GameOfLife \<Rightarrow> bool" where
  "engine_ok e \<longleftrightarrow> grid_ok (grid e) \<and> chunkSize (grid e) = gChunkSize e"

section \<open>The loops of computeNextGen as one pass over a list of cells\<close>

text \<open>
  The chunk coordinates that the keys of \<open>chunksToCheck\<close> are read as, the cells of the
  chunk at a coordinate in the order the two inner loops visit them, the cells of all
  chunks to check, those of them whose next state is 1, and the writes of
  \<open>nextGrid.setCell(gx, gy, 1)\<close> for a list of cells.
\<close>

definition checkCoords :: "ChunkManager \<Rightarrow> (int \<times> int) list" where
  "checkCoords g = map read_key (chunksToCheck g)"

definition chunkCells :: "int \<Rightarrow> int \<times> int \<Rightarrow> (int \<times> int) list" where
  "chunkCells cs key =
     concat (map (\<lambda>ly. map (\<lambda>lx. (fst key * cs + lx, snd key * cs + ly)) [0 .. cs - 1]) [0 .. cs - 1])"

definition regionCells :: "GameOfLife \<Rightarrow> (int \<times> int) list" where
  "regionCells e = concat (map (chunkCells (gChunkSize e)) (checkCoords (grid e)))"

definition bornCells :: "GameOfLife \<Rightarrow> (int \<times> int) list" where
  "bornCells e = filter (\<lambda>(x, y). nextState e x y \<noteq> 0) (regionCells e)"

definition writeCells :: "(int \<times> int) list \<Rightarrow> ChunkManager \<Rightarrow> ChunkManager" where
  "writeCells cells g = fold (\<lambda>(x, y) g'. setCell g' x y 1) cells g"

text \<open>A chunk that holds a live cell: some byte of it is not 0.\<close>

definition has_live :: "chunk \<Rightarrow> bool" where
  "has_live c = list_ex (\<lambda>w. w \<noteq> 0) c"

section \<open>What the specification says of a step\<close>

text \<open>
  The next state in the specification's words: 1 if the cell is alive (its state is not
  0) and its neighbour count is in \<open>survive\<close>, or it is dead and the count is in
  \<open>born\<close>; else 0.
\<close>

definition spec_nextAlive :: "GameOfLife \<Rightarrow> int \<Rightarrow> int \<Rightarrow> bool" where
  "spec_nextAlive e x y \<longleftrightarrow>
     (truthy (getCell (grid e) x y) \<and> countNeighbors (grid e) x y \<in> surviveRules e) \<or>
     (\<not> truthy (getCell (grid e) x y) \<and> countNeighbors (grid e) x y \<in> bornRules e)"

text \<open>
  The number of live cells that a grid stores, counted chunk by chunk, and the set of
  coordinates that read alive.
\<close>

definition countLive :: "ChunkManager \<Rightarrow> nat" where
  "countLive g = sum_list (map (\<lambda>(k, c). length (filter (\<lambda>w. w \<noteq> 0) c)) (chunks g))"

definition liveCells :: "ChunkManager \<Rightarrow> (int \<times> int) set" where
  "liveCells g = {(x, y). truthy (getCell g x y)}"

text \<open>
  A grid whose live cells are exactly the set \<open>S\<close>, each with state 1 (the state that
  every write of the program stores for a live cell), and the two phases of the blinker
  around the centre \<open>(a, b)\<close>.
\<close>

definition cells_are :: "ChunkManager \<Rightarrow> (int \<times> int) set \<Rightarrow> bool" where
  "cells_are g S \<longleftrightarrow> (\<forall>x y. getCell g x y = (if (x, y) \<in> S then Num 1 else Num 0))"

definition horizontal3 :: "int \<Rightarrow> int \<Rightarrow> (int \<times> int) set" where
  "horizontal3 a b = {(a - 1, b), (a, b), (a + 1, b)}"

definition vertical3 :: "int \<Rightarrow> int \<Rightarrow> (int \<times> int) set" where
  "vertical3 a b = {(a, b - 1), (a, b), (a, b + 1)}"

section \<open>Concrete states\<close>

text \<open>
  The state after the constructor with the horizontal blinker \<open>(-1,0), (0,0), (1,0)\<close>
  drawn into the empty grid; it lies across the boundary of chunks \<open>(-1,0)\<close> and \<open>(0,0)\<close>.
\<close>

definition blinker :: GameOfLife where
  "blinker = new_GameOfLife\<lparr>grid := setCell (setCell (setCell (new_ChunkManager 32) (-1) 0 1) 0 0 1) 1 0 1\<rparr>"

text \<open>The state after the constructor with the rule preset \<open>b = [0], s = []\<close> applied: birth on count 0.\<close>

definition born0 :: GameOfLife where
  "born0 = applyRule \<lparr>rule_b = [0], rule_s = []\<rparr> new_GameOfLife"

text \<open>The blinker again, its centre cell written with state 2.\<close>

definition odd_blinker :: GameOfLife where
  "odd_blinker = new_GameOfLife\<lparr>grid := setCell (setCell (setCell (new_ChunkManager 32) (-1) 0 1) 0 0 2) 1 0 1\<rparr>"

text \<open>
  Grids of chunk size 32 written at the chunk boundaries: cells \<open>(31, 0)\<close> and
  \<open>(32, 0)\<close>, and cell \<open>(-1, 0)\<close>.
\<close>

definition grid_31_32 :: ChunkManager where
  "grid_31_32 = setCell (setCell (new_ChunkManager 32) 31 0 1) 32 0 1"

definition grid_m1 :: ChunkManager where
  "grid_m1 = setCell (new_ChunkManager 32) (-1) 0 1"

section \<open>Coordinates: floor division and floored modulo\<close>

text \<open>
  \<open>Math.floor(x / c)\<close> is the integer quotient rounded down, and for a positive chunk
  size the double remainder \<open>((x % c) + c) % c\<close> is the floored modulo.
\<close>

lemma floor_div_eq_div: "floor_div x c = x div c"
  by (simp add: floor_div_def floor_divide_of_int_eq)

lemma js_rem_nonneg: "0 \<le> a \<Longrightarrow> 0 < c \<Longrightarrow> js_rem a c = a mod c"
  by (cases "a = 0") (simp_all add: js_rem_def)

lemma js_rem_neg: "a < 0 \<Longrightarrow> 0 < c \<Longrightarrow> js_rem a c = - ((- a) mod c)"
  by (simp add: js_rem_def)

lemma local_offset_eq_mod: "0 < c \<Longrightarrow> local_offset x c = x mod c"
proof -
  assume c: "0 < c"
  have r: "0 \<le> js_rem x c + c" "(js_rem x c + c) mod c = x mod c"
  proof -
    show "0 \<le> js_rem x c + c"
    proof (cases "0 \<le> x")
      case True then show ?thesis using c by (simp add: js_rem_nonneg)
    next
      case False
      then have "js_rem x c = - ((- x) mod c)" using c by (simp add: js_rem_neg)
      moreover have "(- x) mod c < c" using c by simp
      ultimately show ?thesis by simp
    qed
    show "(js_rem x c + c) mod c = x mod c"
    proof (cases "0 \<le> x")
      case True then show ?thesis using c by (simp add: js_rem_nonneg)
    next
      case False
      then have "js_rem x c = - ((- x) mod c)" using c by (simp add: js_rem_neg)
      then show ?thesis by (simp add: mod_minus_eq)
    qed
  qed
  show ?thesis unfolding local_offset_def using r c by (simp add: js_rem_nonneg)
qed

lemma cell_index_bounds:
  assumes "0 < (c::int)" "0 \<le> lx" "lx < c" "0 \<le> ly" "ly < c"
  shows "0 \<le> ly * c + lx" "ly * c + lx < c * c"
proof -
  show "0 \<le> ly * c + lx" using assms by simp
  have "ly + 1 \<le> c" using assms by simp
  then have "(ly + 1) * c \<le> c * c" using assms by (simp add: mult_right_mono)
  then show "ly * c + lx < c * c" using assms by (simp add: algebra_simps)
qed

lemma cell_index_inj:
  assumes "0 < (c::int)" "0 \<le> lx" "lx < c" "0 \<le> lx'" "lx' < c"
    and "ly * c + lx = ly' * c + lx'"
  shows "lx = lx' \<and> ly = ly'"
proof -
  have "(ly * c + lx) mod c = lx" "(ly' * c + lx') mod c = lx'" using assms(1-5) by simp_all
  then have "lx = lx'" using assms(6) by metis
  then show ?thesis using assms by simp
qed

lemma same_cell:
  assumes "0 < (c::int)" "x div c = x' div c" "x mod c = x' mod c"
  shows "x = x'"
  using assms by (metis mult_div_mod_eq)

lemma div_near:
  assumes c: "0 < (c::int)" and d: "\<bar>x' - x\<bar> \<le> 1"
  shows "\<bar>x div c - x' div c\<bar> \<le> 1"
proof -
  have le: "x' \<le> x + c" "x \<le> x' + c" using c d by arith+
  have "x' div c \<le> (x + c) div c" using le(1) c by (rule zdiv_mono1)
  moreover have "x div c \<le> (x' + c) div c" using le(2) c by (rule zdiv_mono1)
  moreover have "(x + c) div c = x div c + 1" "(x' + c) div c = x' div c + 1" using c by simp_all
  ultimately show ?thesis by arith
qed

section \<open>Key strings\<close>

text \<open>
  Reading a key string back gives the chunk coordinate it was made from, so two chunk
  coordinates never share a key.
\<close>

declare show_nat.simps [simp del]

lemma digit_code: "d < 10 \<Longrightarrow> (of_char (char_of (48 + d :: nat)) :: nat) = 48 + d"
  by simp

lemma show_nat_chars: "c \<in> set (show_nat n) \<Longrightarrow> 48 \<le> (of_char c :: nat)"
proof (induction n rule: show_nat.induct)
  case (1 n)
  show ?case
  proof (cases "n < 10")
    case True
    then show ?thesis using "1.prems" by (simp add: show_nat.simps [of n])
  next
    case False
    have "n mod 10 < 10" by simp
    then have "(of_char (char_of (48 + n mod 10 :: nat)) :: nat) = 48 + n mod 10" by (rule digit_code)
    then show ?thesis using False "1.prems" "1.IH" by (auto simp: show_nat.simps [of n])
  qed
qed

lemma show_nat_nonempty: "show_nat n \<noteq> []"
  by (simp add: show_nat.simps [of n])

lemma read_nat_snoc: "read_nat (str @ [c]) = 10 * read_nat str + (of_char c - 48)"
  by (simp add: read_nat_def)

lemma read_show_nat: "read_nat (show_nat n) = n"
proof (induction n rule: show_nat.induct)
  case (1 n)
  show ?case
  proof (cases "n < 10")
    case True
    then show ?thesis by (simp add: show_nat.simps [of n] read_nat_def)
  next
    case False
    have "n mod 10 < 10" by simp
    then have "(of_char (char_of (48 + n mod 10 :: nat)) :: nat) = 48 + n mod 10" by (rule digit_code)
    then show ?thesis using False "1.IH" by (simp add: show_nat.simps [of n] read_nat_snoc)
  qed
qed

lemma show_nat_no_sign: "hd (show_nat n) \<noteq> CHR ''-''"
proof
  assume h: "hd (show_nat n) = CHR ''-''"
  have "hd (show_nat n) \<in> set (show_nat n)" using show_nat_nonempty by simp
  then have "48 \<le> (of_char (hd (show_nat n)) :: nat)" by (rule show_nat_chars)
  then show False unfolding h by simp
qed

lemma read_show_int: "read_int (show_int i) = i"
proof (cases "i < 0")
  case True
  then show ?thesis by (simp add: read_int_def show_int_def read_show_nat)
next
  case False
  obtain c r where s: "show_nat (nat i) = c # r"
    using show_nat_nonempty [of "nat i"] by (cases "show_nat (nat i)") auto
  have "c \<noteq> CHR ''-''" using show_nat_no_sign [of "nat i"] s by simp
  then have "read_int (show_nat (nat i)) = int (read_nat (show_nat (nat i)))"
    by (simp add: read_int_def s)
  then show ?thesis using False by (simp add: show_int_def read_show_nat)
qed

lemma show_int_no_comma: "c \<in> set (show_int i) \<Longrightarrow> c \<noteq> CHR '',''"
proof
  assume c: "c \<in> set (show_int i)" and e: "c = CHR '',''"
  have "c = CHR ''-'' \<or> 48 \<le> (of_char c :: nat)"
    using c by (auto simp: show_int_def dest: show_nat_chars split: if_splits)
  then show False unfolding e by simp
qed

lemma split_comma_none: "CHR '','' \<notin> set str \<Longrightarrow> split_comma str = [str]"
  by (induction str) auto

lemma split_comma_append:
  "CHR '','' \<notin> set str \<Longrightarrow> split_comma (str @ CHR '','' # rest) = str # split_comma rest"
  by (induction str) auto

lemma split_getChunkKey: "split_comma (getChunkKey cx cy) = [show_int cx, show_int cy]"
proof -
  have "CHR '','' \<notin> set (show_int cx)" "CHR '','' \<notin> set (show_int cy)"
    using show_int_no_comma by blast+
  then show ?thesis by (simp add: getChunkKey_def split_comma_append split_comma_none)
qed

lemma read_key_getChunkKey: "read_key (getChunkKey cx cy) = (cx, cy)"
  by (simp add: read_key_def split_getChunkKey read_show_int)

lemma getChunkKey_inj: "getChunkKey cx cy = getChunkKey cx' cy' \<longleftrightarrow> cx = cx' \<and> cy = cy'"
  by (metis read_key_getChunkKey prod.inject)

lemma key_ok_getChunkKey: "key_ok (getChunkKey cx cy)"
  by (simp add: key_ok_def read_key_getChunkKey)

section \<open>Reading and writing cells\<close>

text \<open>
  What \<open>getCell\<close> and \<open>setCell\<close> do to the chunk map, the invariant of the class, and
  the read of a cell after a write.
\<close>

lemma getCell_eq:
  "0 < chunkSize g \<Longrightarrow> getCell g x y =
     (case map_of (chunks g) (getChunkKey (x div chunkSize g) (y div chunkSize g)) of
        None \<Rightarrow> Num 0
      | Some c \<Rightarrow> typed_get c ((y mod chunkSize g) * chunkSize g + x mod chunkSize g))"
  by (simp add: getCell_def getCell_run_def Let_def floor_div_eq_div
      local_offset_eq_mod split: option.splits)

lemma chunkSize_setCell: "chunkSize (setCell g x y v) = chunkSize g"
  by (simp add: setCell_def getOrCreateChunk_def Let_def split: option.splits prod.splits)

lemma chunks_setCell:
  "0 < chunkSize g \<Longrightarrow> chunks (setCell g x y v) =
     AList.update (getChunkKey (x div chunkSize g) (y div chunkSize g))
       (typed_set (case map_of (chunks g) (getChunkKey (x div chunkSize g) (y div chunkSize g)) of
                     None \<Rightarrow> new_chunk (chunkSize g * chunkSize g) | Some c \<Rightarrow> c)
          ((y mod chunkSize g) * chunkSize g + x mod chunkSize g) v)
       (chunks g)"
  by (simp add: setCell_def getOrCreateChunk_def Let_def floor_div_eq_div
      local_offset_eq_mod split: option.splits)

lemma length_typed_set: "length (typed_set c i v) = length c"
  by (simp add: typed_set_def)

lemma typed_get_typed_set:
  "typed_get (typed_set c i v) j =
     (if j = i \<and> 0 \<le> i \<and> i < int (length c) then Num (v mod 256) else typed_get c j)"
  by (auto simp: typed_get_def typed_set_def uint_word_of_int nth_list_update)

lemma typed_get_new_chunk:
  "typed_get (new_chunk n) j = (if 0 \<le> j \<and> j < n then Num 0 else Undefined)"
  by (auto simp: typed_get_def new_chunk_def)

lemma grid_ok_new: "0 < cs \<Longrightarrow> grid_ok (new_ChunkManager cs)"
  by (simp add: grid_ok_def new_ChunkManager_def)

lemma grid_ok_lookup:
  "grid_ok g \<Longrightarrow> map_of (chunks g) k = Some c \<Longrightarrow> int (length c) = chunkSize g * chunkSize g"
  by (auto simp: grid_ok_def list_all_iff dest: map_of_SomeD)

lemma grid_ok_key: "grid_ok g \<Longrightarrow> k \<in> fst ` set (chunks g) \<Longrightarrow> key_ok k"
  by (auto simp: grid_ok_def list_all_iff)

lemma list_all_update:
  "list_all (\<lambda>(k, c). P k c) al \<Longrightarrow> P k v \<Longrightarrow> list_all (\<lambda>(k, c). P k c) (AList.update k v al)"
  by (induction al) auto

lemma grid_ok_setCell: "grid_ok g \<Longrightarrow> grid_ok (setCell g x y v)"
proof -
  assume ok: "grid_ok g"
  then have cs: "0 < chunkSize g" by (simp add: grid_ok_def)
  let ?k = "getChunkKey (x div chunkSize g) (y div chunkSize g)"
  let ?c = "case map_of (chunks g) ?k of None \<Rightarrow> new_chunk (chunkSize g * chunkSize g) | Some c \<Rightarrow> c"
  have len: "int (length ?c) = chunkSize g * chunkSize g"
    using ok cs by (auto simp: new_chunk_def dest: grid_ok_lookup split: option.splits)
  have "list_all (\<lambda>(k, c). key_ok k \<and> int (length c) = chunkSize g * chunkSize g)
          (chunks (setCell g x y v))"
    unfolding chunks_setCell [OF cs]
    using ok len
    by (intro list_all_update [where P = "\<lambda>k c. key_ok k \<and> int (length c) = chunkSize g * chunkSize g"])
       (simp_all add: grid_ok_def length_typed_set key_ok_getChunkKey)
  moreover have "distinct (map fst (chunks (setCell g x y v)))"
    unfolding chunks_setCell [OF cs] using ok by (simp add: grid_ok_def distinct_update)
  ultimately show ?thesis using cs by (simp add: grid_ok_def chunkSize_setCell)
qed

lemma grid_ok_clear_chunks: "grid_ok g \<Longrightarrow> grid_ok (clear_chunks g)"
  by (simp add: grid_ok_def clear_chunks_def)

lemma getCell_setCell:
  assumes ok: "grid_ok g"
  shows "getCell (setCell g x y v) x' y' =
           (if x' = x \<and> y' = y then Num (v mod 256) else getCell g x' y')"
proof -
  let ?n = "chunkSize g"
  have cs: "0 < ?n" using ok by (simp add: grid_ok_def)
  let ?k = "getChunkKey (x div ?n) (y div ?n)" and ?k' = "getChunkKey (x' div ?n) (y' div ?n)"
  let ?i = "(y mod ?n) * ?n + x mod ?n" and ?i' = "(y' mod ?n) * ?n + x' mod ?n"
  let ?c = "case map_of (chunks g) ?k of None \<Rightarrow> new_chunk (?n * ?n) | Some c \<Rightarrow> c"
  have len: "int (length ?c) = ?n * ?n"
    using ok cs by (auto simp: new_chunk_def dest: grid_ok_lookup split: option.splits)
  have bi: "0 \<le> ?i" "?i < ?n * ?n" and bi': "0 \<le> ?i'" "?i' < ?n * ?n"
    using cs by (simp_all add: cell_index_bounds)
  have lhs: "getCell (setCell g x y v) x' y' =
      (if ?k' = ?k then typed_get (typed_set ?c ?i v) ?i' else getCell g x' y')"
    using cs by (simp add: getCell_eq chunkSize_setCell chunks_setCell update_conv' cong: option.case_cong)
  show ?thesis
  proof (cases "?k' = ?k")
    case False
    then have ne: "\<not> (x' = x \<and> y' = y)" by auto
    from False have "getCell (setCell g x y v) x' y' = getCell g x' y'"
      by (simp only: lhs if_False)
    then show ?thesis using ne by auto
  next
    case True
    then have eq: "getCell (setCell g x y v) x' y' = typed_get (typed_set ?c ?i v) ?i'"
      by (simp only: lhs if_True simp_thms)
    show ?thesis
    proof (cases "?i' = ?i")
      case same: True
      have "x' mod ?n = x mod ?n \<and> y' mod ?n = y mod ?n"
        using cell_index_inj [OF cs _ _ _ _ same] cs by simp
      then have xy: "x' = x \<and> y' = y" using True cs by (auto simp: getChunkKey_inj intro: same_cell)
      have "typed_get (typed_set ?c ?i v) ?i = Num (v mod 256)"
        using bi len by (simp add: typed_get_typed_set)
      then show ?thesis using eq xy by auto
    next
      case diff: False
      then have ne: "\<not> (x' = x \<and> y' = y)" by auto
      have "typed_get (typed_set ?c ?i v) ?i' = typed_get ?c ?i'"
        using diff by (simp add: typed_get_typed_set)
      also have "\<dots> = getCell g x' y'"
        using True cs bi' by (auto simp: getCell_eq typed_get_new_chunk split: option.splits)
      finally show ?thesis using eq ne by auto
    qed
  qed
qed

lemma getCell_new: "getCell (new_ChunkManager cs) x y = Num 0"
  by (simp add: getCell_def getCell_run_def new_ChunkManager_def Let_def)

lemma getCell_clear_chunks: "getCell (clear_chunks g) x y = Num 0"
  by (simp add: getCell_def getCell_run_def clear_chunks_def Let_def)

lemma keys_setCell:
  "0 < chunkSize g \<Longrightarrow>
     fst ` set (chunks (setCell g x y v)) =
       insert (getChunkKey (x div chunkSize g) (y div chunkSize g)) (fst ` set (chunks g))"
  by (simp add: chunks_setCell dom_update)

lemma truthy_stored:
  "0 < chunkSize g \<Longrightarrow> getCell g x y \<noteq> Num 0 \<Longrightarrow>
     getChunkKey (x div chunkSize g) (y div chunkSize g) \<in> fst ` set (chunks g)"
  by (auto simp: getCell_eq split: option.splits dest: map_of_SomeD intro: rev_image_eqI)

section \<open>The chunks to check\<close>

text \<open>
  \<open>chunksToCheck\<close> holds the key of every stored chunk coordinate and of its eight
  neighbours, each once; read back, the keys are the chunk coordinates within one chunk
  of a stored one.
\<close>

lemma set_set_add: "set (set_add k ks) = insert k (set ks)"
  by (auto simp: set_add_def)

lemma distinct_set_add: "distinct ks \<Longrightarrow> distinct (set_add k ks)"
  by (simp add: set_add_def)

lemma set_fold_set_add:
  "set (fold (\<lambda>d acc. set_add (h d) acc) ds acc) = set acc \<union> h ` set ds"
  by (induction ds arbitrary: acc) (auto simp: set_set_add)

lemma distinct_fold_set_add:
  "distinct acc \<Longrightarrow> distinct (fold (\<lambda>d acc. set_add (h d) acc) ds acc)"
  by (induction ds arbitrary: acc) (auto simp: distinct_set_add)

lemma set_fold2_set_add:
  "set (fold (\<lambda>k acc. fold (\<lambda>d acc'. set_add (h k d) acc') ds acc) ks acc)
     = set acc \<union> (\<Union>k \<in> set ks. h k ` set ds)"
  by (induction ks arbitrary: acc) (auto simp: set_fold_set_add)

lemma distinct_fold2_set_add:
  "distinct acc \<Longrightarrow> distinct (fold (\<lambda>k acc. fold (\<lambda>d acc'. set_add (h k d) acc') ds acc) ks acc)"
  by (induction ks arbitrary: acc) (auto simp: distinct_fold_set_add)

lemma chunksToCheck_alt:
  "chunksToCheck g =
     fold (\<lambda>k acc. fold (\<lambda>d acc'. set_add (getChunkKey (fst (read_key k) + fst d) (snd (read_key k) + snd d)) acc')
                      offsets9 acc)
          (map fst (chunks g)) []"
  by (simp add: chunksToCheck_def case_prod_unfold)

lemma set_offsets9: "set offsets9 = {-1, 0, 1} \<times> {-1, 0, 1}"
  by (auto simp: offsets9_def)

lemma distinct_chunksToCheck: "distinct (chunksToCheck g)"
  unfolding chunksToCheck_alt by (rule distinct_fold2_set_add) simp

lemma set_chunksToCheck:
  "set (chunksToCheck g) =
     (\<Union>k \<in> fst ` set (chunks g).
        (\<lambda>d. getChunkKey (fst (read_key k) + fst d) (snd (read_key k) + snd d)) ` ({-1, 0, 1} \<times> {-1, 0, 1}))"
  unfolding chunksToCheck_alt set_fold2_set_add set_offsets9 by simp

lemma key_ok_chunksToCheck: "k \<in> set (chunksToCheck g) \<Longrightarrow> key_ok k"
  unfolding set_chunksToCheck by (auto simp: key_ok_getChunkKey)

lemma distinct_checkCoords: "distinct (checkCoords g)"
proof -
  have "inj_on read_key (set (chunksToCheck g))"
  proof (rule inj_onI)
    fix a b assume "a \<in> set (chunksToCheck g)" "b \<in> set (chunksToCheck g)" "read_key a = read_key b"
    then show "a = b" using key_ok_chunksToCheck [of a g] key_ok_chunksToCheck [of b g]
      by (simp add: key_ok_def)
  qed
  then show ?thesis unfolding checkCoords_def by (simp add: distinct_map distinct_chunksToCheck)
qed

lemma in_checkCoords:
  "(kx, ky) \<in> set (checkCoords g) \<longleftrightarrow>
     (\<exists>k \<in> fst ` set (chunks g). \<bar>kx - fst (read_key k)\<bar> \<le> 1 \<and> \<bar>ky - snd (read_key k)\<bar> \<le> 1)"
proof -
  have "(kx, ky) \<in> set (checkCoords g) \<longleftrightarrow>
     (\<exists>k \<in> fst ` set (chunks g). \<exists>d \<in> {-1, 0, 1} \<times> {-1, 0, 1}.
        (kx, ky) = (fst (read_key k) + fst d, snd (read_key k) + snd d))"
    unfolding checkCoords_def set_map set_chunksToCheck image_UN image_image read_key_getChunkKey
    by (simp only: UN_iff image_iff) blast
  also have "\<dots> \<longleftrightarrow>
     (\<exists>k \<in> fst ` set (chunks g). \<bar>kx - fst (read_key k)\<bar> \<le> 1 \<and> \<bar>ky - snd (read_key k)\<bar> \<le> 1)"
  proof
    assume "\<exists>k \<in> fst ` set (chunks g). \<exists>d \<in> {-1, 0, 1} \<times> {-1, 0, 1}.
              (kx, ky) = (fst (read_key k) + fst d, snd (read_key k) + snd d)"
    then obtain k d where k: "k \<in> fst ` set (chunks g)" and d: "d \<in> {-1, 0, 1} \<times> {-1, 0, 1}"
      and e: "(kx, ky) = (fst (read_key k) + fst d, snd (read_key k) + snd d)" by blast
    have "\<bar>fst d\<bar> \<le> 1 \<and> \<bar>snd d\<bar> \<le> 1" using d by (cases d) auto
    then have "\<bar>kx - fst (read_key k)\<bar> \<le> 1 \<and> \<bar>ky - snd (read_key k)\<bar> \<le> 1" using e by simp
    then show "\<exists>k \<in> fst ` set (chunks g). \<bar>kx - fst (read_key k)\<bar> \<le> 1 \<and> \<bar>ky - snd (read_key k)\<bar> \<le> 1"
      using k by blast
  next
    assume "\<exists>k \<in> fst ` set (chunks g). \<bar>kx - fst (read_key k)\<bar> \<le> 1 \<and> \<bar>ky - snd (read_key k)\<bar> \<le> 1"
    then obtain k where k: "k \<in> fst ` set (chunks g)"
      and b: "\<bar>kx - fst (read_key k)\<bar> \<le> 1" "\<bar>ky - snd (read_key k)\<bar> \<le> 1" by blast
    let ?cx = "fst (read_key k)" and ?cy = "snd (read_key k)"
    have "kx - ?cx = -1 \<or> kx - ?cx = 0 \<or> kx - ?cx = 1" using b by arith
    then have dx: "kx - ?cx \<in> {-1, 0, 1}" by simp
    have "ky - ?cy = -1 \<or> ky - ?cy = 0 \<or> ky - ?cy = 1" using b by arith
    then have dy: "ky - ?cy \<in> {-1, 0, 1}" by simp
    have d: "(kx - ?cx, ky - ?cy) \<in> {-1, 0, 1} \<times> {-1, 0, 1}" using dx dy by (rule SigmaI)
    have e: "(kx, ky) = (?cx + fst (kx - ?cx, ky - ?cy), ?cy + snd (kx - ?cx, ky - ?cy))"
      by simp
    show "\<exists>k \<in> fst ` set (chunks g). \<exists>d \<in> {-1, 0, 1} \<times> {-1, 0, 1}.
            (kx, ky) = (fst (read_key k) + fst d, snd (read_key k) + snd d)"
      by (rule bexI [OF _ k], rule bexI [OF _ d], rule e)
  qed
  finally show ?thesis .
qed

lemma in_checkCoords_keys:
  assumes "grid_ok g"
  shows "(kx, ky) \<in> set (checkCoords g) \<longleftrightarrow>
     (\<exists>cx cy. getChunkKey cx cy \<in> fst ` set (chunks g) \<and> \<bar>kx - cx\<bar> \<le> 1 \<and> \<bar>ky - cy\<bar> \<le> 1)"
proof
  assume "(kx, ky) \<in> set (checkCoords g)"
  then obtain k where k: "k \<in> fst ` set (chunks g)"
    and b: "\<bar>kx - fst (read_key k)\<bar> \<le> 1" "\<bar>ky - snd (read_key k)\<bar> \<le> 1"
    unfolding in_checkCoords by blast
  have "getChunkKey (fst (read_key k)) (snd (read_key k)) = k"
    using grid_ok_key [OF assms k] by (simp add: key_ok_def)
  then show "\<exists>cx cy. getChunkKey cx cy \<in> fst ` set (chunks g) \<and> \<bar>kx - cx\<bar> \<le> 1 \<and> \<bar>ky - cy\<bar> \<le> 1"
    using k b by metis
next
  assume "\<exists>cx cy. getChunkKey cx cy \<in> fst ` set (chunks g) \<and> \<bar>kx - cx\<bar> \<le> 1 \<and> \<bar>ky - cy\<bar> \<le> 1"
  then obtain cx cy where "getChunkKey cx cy \<in> fst ` set (chunks g)" "\<bar>kx - cx\<bar> \<le> 1" "\<bar>ky - cy\<bar> \<le> 1"
    by blast
  then show "(kx, ky) \<in> set (checkCoords g)"
    unfolding in_checkCoords by (intro bexI [of _ "getChunkKey cx cy"]) (simp_all add: read_key_getChunkKey)
qed

section \<open>The loops as one pass\<close>

text \<open>
  The nested loops of \<open>computeNextGen\<close> visit the cells of \<open>regionCells\<close> in order, write
  those of \<open>bornCells\<close> with state 1 into the new grid and count them.
\<close>

lemma fold_concat_map:
  "fold f (concat (map h xs)) st = fold (\<lambda>x. fold f (h x)) xs st"
  by (induction xs arbitrary: st) simp_all

lemma processChunk_fold:
  "processChunk e key st = fold (\<lambda>(x, y). cellStep e x y) (chunkCells (gChunkSize e) (read_key key)) st"
  by (cases "read_key key") (simp add: processChunk_def chunkCells_def Let_def fold_concat_map fold_map comp_def)

lemma fold_processChunk:
  "fold (processChunk e) keys st =
     fold (\<lambda>(x, y). cellStep e x y) (concat (map (chunkCells (gChunkSize e)) (map read_key keys))) st"
proof -
  have "processChunk e = (\<lambda>key. fold (\<lambda>(x, y). cellStep e x y) (chunkCells (gChunkSize e) (read_key key)))"
    by (intro ext) (rule processChunk_fold)
  then show ?thesis by (simp add: fold_concat_map)
qed

lemma fold_cellStep:
  "fold (\<lambda>(x, y). cellStep e x y) cells (g, p) =
     (writeCells (filter (\<lambda>(x, y). nextState e x y \<noteq> 0) cells) g,
      p + length (filter (\<lambda>(x, y). nextState e x y \<noteq> 0) cells))"
  by (induction cells arbitrary: g p) (auto simp: cellStep_def writeCells_def)

lemma computeNextGen_eq:
  "computeNextGen e =
     e\<lparr>grid := writeCells (bornCells e) (new_ChunkManager (gChunkSize e)),
       generation := generation e + 1,
       population := length (bornCells e)\<rparr>"
  by (simp add: computeNextGen_def Let_def fold_processChunk fold_cellStep bornCells_def regionCells_def
      checkCoords_def)

lemma generation_computeNextGen: "generation (computeNextGen e) = generation e + 1"
  by (simp add: computeNextGen_eq)

lemma population_computeNextGen: "population (computeNextGen e) = length (bornCells e)"
  by (simp add: computeNextGen_eq)

lemma rules_computeNextGen:
  "bornRules (computeNextGen e) = bornRules e" "surviveRules (computeNextGen e) = surviveRules e"
  "gChunkSize (computeNextGen e) = gChunkSize e"
  by (simp_all add: computeNextGen_eq)

lemma grid_ok_writeCells: "grid_ok g \<Longrightarrow> grid_ok (writeCells cells g)"
  by (induction cells arbitrary: g) (auto simp: writeCells_def grid_ok_setCell)

lemma chunkSize_writeCells: "chunkSize (writeCells cells g) = chunkSize g"
  by (induction cells arbitrary: g) (auto simp: writeCells_def chunkSize_setCell)

lemma getCell_writeCells:
  "grid_ok g \<Longrightarrow> getCell (writeCells cells g) x y = (if (x, y) \<in> set cells then Num 1 else getCell g x y)"
proof (induction cells arbitrary: g)
  case Nil
  then show ?case by (simp add: writeCells_def)
next
  case (Cons c cells)
  obtain cx cy where c: "c = (cx, cy)" by (cases c)
  have step: "writeCells (c # cells) g = writeCells cells (setCell g cx cy 1)"
    by (simp add: writeCells_def c)
  have ok: "grid_ok (setCell g cx cy 1)" using Cons.prems by (rule grid_ok_setCell)
  show ?case
    unfolding step Cons.IH [OF ok] using Cons.prems c by (auto simp: getCell_setCell)
qed

lemma in_chunkCells:
  "p \<in> set (chunkCells cs key) \<longleftrightarrow>
     (\<exists>lx ly. 0 \<le> lx \<and> lx < cs \<and> 0 \<le> ly \<and> ly < cs \<and> p = (fst key * cs + lx, snd key * cs + ly))"
proof
  assume "p \<in> set (chunkCells cs key)"
  then show "\<exists>lx ly. 0 \<le> lx \<and> lx < cs \<and> 0 \<le> ly \<and> ly < cs \<and> p = (fst key * cs + lx, snd key * cs + ly)"
    by (auto simp: chunkCells_def)
next
  assume "\<exists>lx ly. 0 \<le> lx \<and> lx < cs \<and> 0 \<le> ly \<and> ly < cs \<and> p = (fst key * cs + lx, snd key * cs + ly)"
  then obtain lx ly where b: "lx \<in> {0 .. cs - 1}" "ly \<in> {0 .. cs - 1}"
    and p: "p = (fst key * cs + lx, snd key * cs + ly)" by auto
  have "p \<in> (\<lambda>lx. (fst key * cs + lx, snd key * cs + ly)) ` {0 .. cs - 1}"
    using p b(1) by (rule image_eqI)
  then show "p \<in> set (chunkCells cs key)"
    using b(2) by (auto simp: chunkCells_def)
qed

lemma set_chunkCells:
  assumes cs: "0 < cs"
  shows "set (chunkCells cs (cx, cy)) = {(x, y). x div cs = cx \<and> y div cs = cy}"
proof (intro set_eqI iffI)
  fix p assume "p \<in> set (chunkCells cs (cx, cy))"
  then obtain lx ly where p: "p = (cx * cs + lx, cy * cs + ly)"
    and b: "0 \<le> lx" "lx < cs" "0 \<le> ly" "ly < cs"
    by (auto simp: in_chunkCells)
  have "(cx * cs + lx) div cs = cx" "(cy * cs + ly) div cs = cy" using b cs by simp_all
  then show "p \<in> {(x, y). x div cs = cx \<and> y div cs = cy}" using p by simp
next
  fix p assume "p \<in> {(x, y). x div cs = cx \<and> y div cs = cy}"
  then obtain x y where p: "p = (x, y)" and d: "x div cs = cx" "y div cs = cy" by auto
  have x: "x = cx * cs + x mod cs" unfolding d(1) [symmetric] by simp
  have y: "y = cy * cs + y mod cs" unfolding d(2) [symmetric] by simp
  have b: "0 \<le> x mod cs \<and> x mod cs < cs \<and> 0 \<le> y mod cs \<and> y mod cs < cs"
    using cs by simp
  have "(cx * cs + x mod cs, cy * cs + y mod cs) \<in> set (chunkCells cs (cx, cy))"
    unfolding in_chunkCells using b by (intro exI [of _ "x mod cs"] exI [of _ "y mod cs"]) simp
  then show "p \<in> set (chunkCells cs (cx, cy))" using p x y by simp
qed

lemma distinct_cells_rows:
  "distinct xs \<Longrightarrow> distinct ys \<Longrightarrow> inj f \<Longrightarrow> inj h \<Longrightarrow>
     distinct (concat (map (\<lambda>y. map (\<lambda>x. (f x, h y)) xs) ys))"
  by (induction ys) (auto simp: distinct_map inj_on_def)

lemma distinct_chunkCells: "distinct (chunkCells cs key)"
  unfolding chunkCells_def
  by (rule distinct_cells_rows) (simp_all add: inj_on_def)

lemma set_cells_of_keys:
  "0 < cs \<Longrightarrow> set (concat (map (chunkCells cs) keys)) = {(x, y). (x div cs, y div cs) \<in> set keys}"
proof (induction keys)
  case Nil
  then show ?case by simp
next
  case (Cons k keys)
  obtain cx cy where k: "k = (cx, cy)" by (cases k)
  show ?case using Cons by (auto simp: k set_chunkCells)
qed

lemma distinct_cells_of_keys:
  "0 < cs \<Longrightarrow> distinct keys \<Longrightarrow> distinct (concat (map (chunkCells cs) keys))"
proof (induction keys)
  case Nil
  then show ?case by simp
next
  case (Cons k keys)
  obtain cx cy where k: "k = (cx, cy)" by (cases k)
  have "set (chunkCells cs k) \<inter> set (concat (map (chunkCells cs) keys)) = {}"
    using Cons.prems unfolding set_cells_of_keys [OF Cons.prems(1)] k set_chunkCells [OF Cons.prems(1)]
    by auto
  then show ?case using Cons by (simp add: distinct_chunkCells)
qed

lemma set_regionCells:
  "0 < gChunkSize e \<Longrightarrow>
     set (regionCells e) = {(x, y). (x div gChunkSize e, y div gChunkSize e) \<in> set (checkCoords (grid e))}"
  unfolding regionCells_def by (rule set_cells_of_keys)

lemma engine_ok_pos: "engine_ok e \<Longrightarrow> 0 < gChunkSize e"
  by (auto simp: engine_ok_def grid_ok_def)

lemma in_regionCells:
  "engine_ok e \<Longrightarrow>
     (x, y) \<in> set (regionCells e) \<longleftrightarrow>
       (\<exists>cx cy. getChunkKey cx cy \<in> fst ` set (chunks (grid e))
          \<and> \<bar>x div gChunkSize e - cx\<bar> \<le> 1 \<and> \<bar>y div gChunkSize e - cy\<bar> \<le> 1)"
  by (simp add: set_regionCells engine_ok_pos in_checkCoords_keys engine_ok_def)

lemma distinct_regionCells: "0 < gChunkSize e \<Longrightarrow> distinct (regionCells e)"
  unfolding regionCells_def by (rule distinct_cells_of_keys) (simp_all add: distinct_checkCoords)

lemma set_bornCells:
  "0 < gChunkSize e \<Longrightarrow>
     set (bornCells e) = {(x, y). (x div gChunkSize e, y div gChunkSize e) \<in> set (checkCoords (grid e))
                            \<and> nextState e x y \<noteq> 0}"
  by (auto simp: bornCells_def set_regionCells)

lemma distinct_bornCells: "0 < gChunkSize e \<Longrightarrow> distinct (bornCells e)"
  by (simp add: bornCells_def distinct_regionCells)

lemma grid_ok_computeNextGen: "0 < gChunkSize e \<Longrightarrow> grid_ok (grid (computeNextGen e))"
  by (simp add: computeNextGen_eq grid_ok_writeCells grid_ok_new)

lemma getCell_computeNextGen:
  "0 < gChunkSize e \<Longrightarrow>
     getCell (grid (computeNextGen e)) x y =
       (if (x div gChunkSize e, y div gChunkSize e) \<in> set (checkCoords (grid e)) \<and> nextState e x y \<noteq> 0
        then Num 1 else Num 0)"
  by (simp add: computeNextGen_eq getCell_writeCells grid_ok_new set_bornCells getCell_new)

lemma getCell_next:
  "0 < gChunkSize e \<Longrightarrow>
     getCell (grid (computeNextGen e)) x y =
       (if (x, y) \<in> set (regionCells e) \<and> nextState e x y \<noteq> 0 then Num 1 else Num 0)"
  by (simp add: getCell_computeNextGen set_regionCells)

lemma getCell_outside_region:
  "0 < gChunkSize e \<Longrightarrow> (x, y) \<notin> set (regionCells e) \<Longrightarrow> getCell (grid (computeNextGen e)) x y = Num 0"
  by (simp add: getCell_computeNextGen set_regionCells)

section \<open>The invariant of the simulation state\<close>

text \<open>
  The constructor establishes it; \<open>computeNextGen\<close>, \<open>applyRule\<close>, \<open>clear\<close> and every
  \<open>grid.setCell\<close> of the input handlers keep it.
\<close>

lemma engine_ok_new: "engine_ok new_GameOfLife"
  by (simp add: engine_ok_def new_GameOfLife_def new_ChunkManager_def grid_ok_def)

lemma engine_ok_computeNextGen: "0 < gChunkSize e \<Longrightarrow> engine_ok (computeNextGen e)"
  by (simp add: engine_ok_def computeNextGen_eq chunkSize_writeCells grid_ok_writeCells grid_ok_new)
     (simp add: new_ChunkManager_def)

lemma fold_insert_born:
  "fold (\<lambda>n e'. e'\<lparr>bornRules := insert n (bornRules e')\<rparr>) xs e = e\<lparr>bornRules := set xs \<union> bornRules e\<rparr>"
  by (induction xs arbitrary: e) simp_all

lemma fold_insert_survive:
  "fold (\<lambda>n e'. e'\<lparr>surviveRules := insert n (surviveRules e')\<rparr>) xs e = e\<lparr>surviveRules := set xs \<union> surviveRules e\<rparr>"
  by (induction xs arbitrary: e) simp_all

lemma applyRule_eq:
  "applyRule r e = e\<lparr>bornRules := set (rule_b r), surviveRules := set (rule_s r)\<rparr>"
  by (simp add: applyRule_def Let_def fold_insert_born fold_insert_survive)

lemma engine_ok_applyRule: "engine_ok e \<Longrightarrow> engine_ok (applyRule r e)"
  by (simp add: engine_ok_def applyRule_eq)

lemma engine_ok_setCell: "engine_ok e \<Longrightarrow> engine_ok (e\<lparr>grid := setCell (grid e) x y v\<rparr>)"
  by (simp add: engine_ok_def grid_ok_setCell chunkSize_setCell)

lemma engine_ok_clear: "engine_ok e \<Longrightarrow> engine_ok (clear e)"
  by (simp add: engine_ok_def clear_def grid_ok_clear_chunks) (simp add: clear_chunks_def)

section \<open>Neighbour counts and the evaluation region\<close>

text \<open>
  The neighbour count is the number of the eight surrounding cells that read truthy. A
  cell with a live neighbour, and a live cell, lies in a stored chunk or next to one.
\<close>

lemma fold_count:
  "fold (\<lambda>(dx, dy) n. if dx = 0 \<and> dy = 0 then n else if P dx dy then n + 1 else n) ds (n0 :: nat) =
     n0 + sum_list (map (\<lambda>(dx, dy). if dx = (0::int) \<and> dy = (0::int) then 0 else of_bool (P dx dy)) ds)"
  by (induction ds arbitrary: n0) (auto simp: case_prod_unfold)

lemma countNeighbors_sum:
  "countNeighbors g x y =
     sum_list (map (\<lambda>(dx, dy). if dx = 0 \<and> dy = 0 then 0 else of_bool (truthy (getCell g (x + dx) (y + dy)))) offsets9)"
  unfolding countNeighbors_def by (simp add: fold_count)

lemma countNeighbors_eq:
  "countNeighbors g x y =
     of_bool (truthy (getCell g (x - 1) (y - 1))) + of_bool (truthy (getCell g x (y - 1)))
     + of_bool (truthy (getCell g (x + 1) (y - 1)))
     + of_bool (truthy (getCell g (x - 1) y)) + of_bool (truthy (getCell g (x + 1) y))
     + of_bool (truthy (getCell g (x - 1) (y + 1))) + of_bool (truthy (getCell g x (y + 1)))
     + of_bool (truthy (getCell g (x + 1) (y + 1)))"
  unfolding countNeighbors_sum offsets9_def by simp

lemma countNeighbors_le: "countNeighbors g x y \<le> 8"
  unfolding countNeighbors_eq of_bool_def by (simp split: if_splits)

lemma live_neighbor:
  assumes "countNeighbors g x y \<noteq> 0"
  shows "\<exists>x' y'. \<bar>x' - x\<bar> \<le> 1 \<and> \<bar>y' - y\<bar> \<le> 1 \<and> truthy (getCell g x' y')"
proof -
  let ?f = "\<lambda>(dx, dy). if dx = 0 \<and> dy = 0 then 0 else (of_bool (truthy (getCell g (x + dx) (y + dy))) :: nat)"
  have "sum_list (map ?f offsets9) \<noteq> 0" using assms by (simp add: countNeighbors_sum)
  then obtain d where d: "d \<in> set offsets9" and nz: "?f d \<noteq> 0"
    by (auto simp: sum_list_eq_0_iff)
  obtain dx dy where dd: "d = (dx, dy)" by (cases d)
  have t: "truthy (getCell g (x + dx) (y + dy))" using nz dd by (auto split: if_splits)
  have "dx \<in> {-1, 0, 1} \<and> dy \<in> {-1, 0, 1}" using d dd unfolding set_offsets9 by blast
  then have "\<bar>(x + dx) - x\<bar> \<le> 1 \<and> \<bar>(y + dy) - y\<bar> \<le> 1" by auto
  then show ?thesis using t by blast
qed

lemma truthy_in_region:
  assumes ok: "engine_ok e" and t: "truthy (getCell (grid e) x' y')"
    and d: "\<bar>x' - x\<bar> \<le> 1" "\<bar>y' - y\<bar> \<le> 1"
  shows "(x, y) \<in> set (regionCells e)"
proof -
  let ?c = "gChunkSize e"
  have c: "0 < ?c" using ok by (rule engine_ok_pos)
  have cg: "chunkSize (grid e) = ?c" using ok by (simp add: engine_ok_def)
  have "getCell (grid e) x' y' \<noteq> Num 0" using t by auto
  then have st: "getChunkKey (x' div ?c) (y' div ?c) \<in> fst ` set (chunks (grid e))"
    using truthy_stored [of "grid e" x' y'] c cg by simp
  have "\<bar>x div ?c - x' div ?c\<bar> \<le> 1 \<and> \<bar>y div ?c - y' div ?c\<bar> \<le> 1"
    using c d by (simp add: div_near)
  then have "(x div ?c, y div ?c) \<in> set (checkCoords (grid e))"
    unfolding in_checkCoords using st
    by (intro bexI [of _ "getChunkKey (x' div ?c) (y' div ?c)"]) (simp_all add: read_key_getChunkKey)
  then show ?thesis using c by (simp add: set_regionCells)
qed

lemma live_in_region:
  "engine_ok e \<Longrightarrow> truthy (getCell (grid e) x y) \<Longrightarrow> (x, y) \<in> set (regionCells e)"
  by (rule truthy_in_region [where x' = x and y' = y]) simp_all

lemma neighbors_in_region:
  assumes "engine_ok e" "countNeighbors (grid e) x y \<noteq> 0"
  shows "(x, y) \<in> set (regionCells e)"
proof -
  obtain x' y' where "\<bar>x' - x\<bar> \<le> 1" "\<bar>y' - y\<bar> \<le> 1" "truthy (getCell (grid e) x' y')"
    using live_neighbor [OF assms(2)] by blast
  then show ?thesis using assms(1) by (intro truthy_in_region [where x' = x' and y' = y'])
qed

lemma nextState_in_region:
  assumes ok: "engine_ok e" and b: "0 \<notin> bornRules e" and n: "nextState e x y \<noteq> 0"
  shows "(x, y) \<in> set (regionCells e)"
proof (cases "getCell (grid e) x y = Num 1")
  case True
  then show ?thesis using ok by (intro live_in_region) simp_all
next
  case False
  then have "countNeighbors (grid e) x y \<in> bornRules e"
    using n by (simp add: nextState_def Let_def split: if_splits)
  then have "countNeighbors (grid e) x y \<noteq> 0" using b by metis
  then show ?thesis using ok by (intro neighbors_in_region)
qed

lemma spec_nextAlive_in_region:
  assumes ok: "engine_ok e" and b: "0 \<notin> bornRules e" and n: "spec_nextAlive e x y"
  shows "(x, y) \<in> set (regionCells e)"
proof (cases "truthy (getCell (grid e) x y)")
  case True
  then show ?thesis using ok by (intro live_in_region)
next
  case False
  then have "countNeighbors (grid e) x y \<in> bornRules e"
    using n by (simp add: spec_nextAlive_def)
  then have "countNeighbors (grid e) x y \<noteq> 0" using b by metis
  then show ?thesis using ok by (intro neighbors_in_region)
qed

lemma spec_nextAlive_iff:
  assumes "getCell (grid e) x y = Num 0 \<or> getCell (grid e) x y = Num 1"
  shows "spec_nextAlive e x y \<longleftrightarrow> nextState e x y \<noteq> 0"
  using assms by (auto simp: spec_nextAlive_def nextState_def Let_def)

section \<open>Chunks of the new grid\<close>

text \<open>
  Every write of \<open>computeNextGen\<close> leaves a live cell in the chunk it touches.
\<close>

lemma has_live_typed_set:
  "0 \<le> i \<Longrightarrow> i < int (length c) \<Longrightarrow> has_live (typed_set c i 1)"
  unfolding has_live_def typed_set_def list_ex_iff
  by (auto intro!: bexI [of _ "1 :: 8 word"] set_update_memI)

lemma has_live_setCell:
  assumes ok: "grid_ok g" and live: "list_all (\<lambda>(k, c). has_live c) (chunks g)"
  shows "list_all (\<lambda>(k, c). has_live c) (chunks (setCell g x y 1))"
proof -
  let ?n = "chunkSize g"
  have cs: "0 < ?n" using ok by (simp add: grid_ok_def)
  let ?k = "getChunkKey (x div ?n) (y div ?n)"
  let ?i = "(y mod ?n) * ?n + x mod ?n"
  let ?c = "case map_of (chunks g) ?k of None \<Rightarrow> new_chunk (?n * ?n) | Some c \<Rightarrow> c"
  have len: "int (length ?c) = ?n * ?n"
    using ok cs by (auto simp: new_chunk_def dest: grid_ok_lookup split: option.splits)
  have bi: "0 \<le> ?i" "?i < ?n * ?n" using cs by (simp_all add: cell_index_bounds)
  have "has_live (typed_set ?c ?i 1)" using bi len by (intro has_live_typed_set) simp_all
  then show ?thesis unfolding chunks_setCell [OF cs] using live by (intro list_all_update)
qed

lemma has_live_writeCells:
  "grid_ok g \<Longrightarrow> list_all (\<lambda>(k, c). has_live c) (chunks g) \<Longrightarrow>
     list_all (\<lambda>(k, c). has_live c) (chunks (writeCells cells g))"
proof (induction cells arbitrary: g)
  case Nil
  then show ?case by (simp add: writeCells_def)
next
  case (Cons c cells)
  obtain cx cy where c: "c = (cx, cy)" by (cases c)
  have step: "writeCells (c # cells) g = writeCells cells (setCell g cx cy 1)"
    by (simp add: writeCells_def c)
  show ?case unfolding step using Cons.prems
    by (intro Cons.IH grid_ok_setCell has_live_setCell)
qed

section \<open>The population counter\<close>

text \<open>
  The number of nonzero bytes stored grows by one with every write of a cell that was
  dead, and the cells written are the cells that read alive afterwards.
\<close>

lemma liveCells_computeNextGen:
  "0 < gChunkSize e \<Longrightarrow> liveCells (grid (computeNextGen e)) = set (bornCells e)"
  by (auto simp: liveCells_def getCell_next bornCells_def)

lemma population_card:
  "0 < gChunkSize e \<Longrightarrow> population (computeNextGen e) = card (liveCells (grid (computeNextGen e)))"
  by (simp add: liveCells_computeNextGen population_computeNextGen distinct_bornCells distinct_card)

lemma update_absent: "map_of al k = None \<Longrightarrow> AList.update k v al = al @ [(k, v)]"
  by (induction al) (auto split: if_splits)

lemma sum_update_present:
  "map_of al k = Some c \<Longrightarrow>
     sum_list (map f (AList.update k v al)) + f (k, c) = sum_list (map f al) + (f (k, v) :: nat)"
  by (induction al) (auto split: if_splits)

lemma count_list_update:
  "i < length xs \<Longrightarrow> \<not> P (xs ! i) \<Longrightarrow> P v \<Longrightarrow>
     length (filter P (xs[i := v])) = length (filter P xs) + 1"
proof (induction xs arbitrary: i)
  case Nil
  then show ?case by simp
next
  case (Cons a xs)
  then show ?case by (cases i) auto
qed

lemma countLive_setCell:
  assumes ok: "grid_ok g" and dead: "getCell g x y = Num 0"
  shows "countLive (setCell g x y 1) = countLive g + 1"
proof -
  let ?n = "chunkSize g"
  have cs: "0 < ?n" using ok by (simp add: grid_ok_def)
  let ?k = "getChunkKey (x div ?n) (y div ?n)"
  let ?i = "(y mod ?n) * ?n + x mod ?n"
  let ?f = "\<lambda>(k :: chunk_key, c :: chunk). length (filter (\<lambda>w. w \<noteq> 0) c)"
  have bi: "0 \<le> ?i" "?i < ?n * ?n" using cs by (simp_all add: cell_index_bounds)
  show ?thesis
  proof (cases "map_of (chunks g) ?k")
    case None
    have n: "nat ?i < nat (?n * ?n)" using bi by simp
    have "length (filter (\<lambda>w. w \<noteq> 0) ((replicate (nat (?n * ?n)) (0 :: 8 word))[nat ?i := 1])) =
          length (filter (\<lambda>w. w \<noteq> 0) (replicate (nat (?n * ?n)) (0 :: 8 word))) + 1"
      using n by (intro count_list_update) simp_all
    then have "length (filter (\<lambda>w. w \<noteq> 0) (typed_set (new_chunk (?n * ?n)) ?i 1)) = 1"
      using bi by (simp add: typed_set_def new_chunk_def)
    then show ?thesis
      using None cs by (simp add: countLive_def chunks_setCell update_absent)
  next
    case (Some c)
    have len: "int (length c) = ?n * ?n" using ok Some by (rule grid_ok_lookup)
    have "typed_get c ?i = Num 0" using dead Some cs by (simp add: getCell_eq)
    then have z: "c ! nat ?i = 0" using bi len by (simp add: typed_get_def uint_0_iff)
    have n: "nat ?i < length c" using bi len by simp
    have "length (filter (\<lambda>w. w \<noteq> 0) (c[nat ?i := 1])) = length (filter (\<lambda>w. w \<noteq> 0) c) + 1"
      using n z by (intro count_list_update) simp_all
    then have "?f (?k, typed_set c ?i 1) = ?f (?k, c) + 1"
      using bi len by (simp add: typed_set_def)
    moreover have "sum_list (map ?f (AList.update ?k (typed_set c ?i 1) (chunks g))) + ?f (?k, c)
        = sum_list (map ?f (chunks g)) + ?f (?k, typed_set c ?i 1)"
      using Some by (rule sum_update_present)
    ultimately have "sum_list (map ?f (AList.update ?k (typed_set c ?i 1) (chunks g)))
        = sum_list (map ?f (chunks g)) + 1" by simp
    then show ?thesis using Some cs by (simp add: countLive_def chunks_setCell)
  qed
qed

lemma countLive_writeCells:
  "grid_ok g \<Longrightarrow> distinct cells \<Longrightarrow> \<forall>(x, y) \<in> set cells. getCell g x y = Num 0 \<Longrightarrow>
     countLive (writeCells cells g) = countLive g + length cells"
proof (induction cells arbitrary: g)
  case Nil
  then show ?case by (simp add: writeCells_def)
next
  case (Cons c cells)
  obtain cx cy where c: "c = (cx, cy)" by (cases c)
  have step: "writeCells (c # cells) g = writeCells cells (setCell g cx cy 1)"
    by (simp add: writeCells_def c)
  have ok: "grid_ok (setCell g cx cy 1)" using Cons.prems(1) by (rule grid_ok_setCell)
  have dead: "getCell g cx cy = Num 0" using Cons.prems(3) c by simp
  have rest: "\<forall>(x, y) \<in> set cells. getCell (setCell g cx cy 1) x y = Num 0"
    using Cons.prems c by (auto simp: getCell_setCell)
  have "countLive (writeCells cells (setCell g cx cy 1)) = countLive (setCell g cx cy 1) + length cells"
    using ok Cons.prems(2) rest by (intro Cons.IH) simp_all
  then show ?case unfolding step using countLive_setCell [OF Cons.prems(1) dead] by simp
qed

lemma population_countLive:
  assumes "0 < gChunkSize e"
  shows "population (computeNextGen e) = countLive (grid (computeNextGen e))"
proof -
  have "countLive (writeCells (bornCells e) (new_ChunkManager (gChunkSize e)))
      = countLive (new_ChunkManager (gChunkSize e)) + length (bornCells e)"
    using assms by (intro countLive_writeCells grid_ok_new distinct_bornCells) (simp_all add: getCell_new)
  then show ?thesis by (simp add: computeNextGen_eq countLive_def new_ChunkManager_def)
qed

section \<open>The blinker\<close>

text \<open>
  The next state of every cell of the plane around a horizontal and around a vertical
  segment of three, under the Conway rule, and the step of a pattern whose next states
  are known.
\<close>

lemma count3:
  "(of_bool (u - 1 = -1 \<or> u - 1 = 0 \<or> u - 1 = (1::int)) :: nat) + of_bool (u = -1 \<or> u = 0 \<or> u = 1)
     + of_bool (u + 1 = -1 \<or> u + 1 = 0 \<or> u + 1 = 1)
   = (if u = 0 then 3 else if u = 1 \<or> u = -1 then 2 else if u = 2 \<or> u = -2 then 1 else 0)"
  by (auto simp: of_bool_def)

lemma count2:
  "(of_bool (u - 1 = -1 \<or> u - 1 = 0 \<or> u - 1 = (1::int)) :: nat)
     + of_bool (u + 1 = -1 \<or> u + 1 = 0 \<or> u + 1 = 1)
   = (if u = 0 then 2 else if u = 1 \<or> u = -1 \<or> u = 2 \<or> u = -2 then 1 else 0)"
  by (auto simp: of_bool_def)

lemma nextState_horizontal:
  assumes r: "bornRules e = {3}" "surviveRules e = {2, 3}"
    and g: "cells_are (grid e) (horizontal3 a b)"
  shows "nextState e x y = (if (x, y) \<in> vertical3 a b then 1 else 0)"
proof -
  have t: "\<And>x y. getCell (grid e) x y = (if y = b \<and> (x = a - 1 \<or> x = a \<or> x = a + 1) then Num 1 else Num 0)"
    using g by (auto simp: cells_are_def horizontal3_def)
  have tr: "\<And>x y. truthy (getCell (grid e) x y) \<longleftrightarrow> y - b = 0 \<and> (x - a = -1 \<or> x - a = 0 \<or> x - a = 1)"
    unfolding t by auto
  define u v where "u = x - a" and "v = y - b"
  have xy: "x = a + u" "y = b + v" by (simp_all add: u_def v_def)
  let ?F = "if u = 0 then 3 else if u = 1 \<or> u = -1 then 2 else if u = 2 \<or> u = -2 then (1::nat) else 0"
  have top: "(of_bool (truthy (getCell (grid e) (x - 1) (y - 1))) :: nat)
             + of_bool (truthy (getCell (grid e) x (y - 1)))
             + of_bool (truthy (getCell (grid e) (x + 1) (y - 1)))
           = (if v = 1 then ?F else 0)"
    unfolding tr xy using count3 [of u] by (simp add: algebra_simps)
  have bot: "(of_bool (truthy (getCell (grid e) (x - 1) (y + 1))) :: nat)
             + of_bool (truthy (getCell (grid e) x (y + 1)))
             + of_bool (truthy (getCell (grid e) (x + 1) (y + 1)))
           = (if v = -1 then ?F else 0)"
    unfolding tr xy using count3 [of u] by (simp add: algebra_simps)
  have mid: "(of_bool (truthy (getCell (grid e) (x - 1) y)) :: nat)
             + of_bool (truthy (getCell (grid e) (x + 1) y))
           = (if v = 0 then (if u = 0 then 2 else if u = 1 \<or> u = -1 \<or> u = 2 \<or> u = -2 then 1 else 0) else 0)"
    unfolding tr xy using count2 [of u] by (simp add: algebra_simps)
  have cnt: "countNeighbors (grid e) x y =
      (if v = 1 then ?F else 0)
      + (if v = 0 then (if u = 0 then 2 else if u = 1 \<or> u = -1 \<or> u = 2 \<or> u = -2 then 1 else 0) else 0)
      + (if v = -1 then ?F else 0)"
    unfolding top [symmetric] mid [symmetric] bot [symmetric] countNeighbors_eq by simp
  have st: "getCell (grid e) x y = Num 1 \<longleftrightarrow> v = 0 \<and> (u = -1 \<or> u = 0 \<or> u = 1)"
    unfolding t xy by auto
  have mem: "(x, y) \<in> vertical3 a b \<longleftrightarrow> u = 0 \<and> (v = -1 \<or> v = 0 \<or> v = 1)"
    unfolding xy vertical3_def by auto
  show ?thesis
    unfolding nextState_def Let_def cnt st mem r by auto
qed

lemma nextState_vertical:
  assumes r: "bornRules e = {3}" "surviveRules e = {2, 3}"
    and g: "cells_are (grid e) (vertical3 a b)"
  shows "nextState e x y = (if (x, y) \<in> horizontal3 a b then 1 else 0)"
proof -
  have t: "\<And>x y. getCell (grid e) x y = (if x = a \<and> (y = b - 1 \<or> y = b \<or> y = b + 1) then Num 1 else Num 0)"
    using g by (auto simp: cells_are_def vertical3_def)
  have tr: "\<And>x y. truthy (getCell (grid e) x y) \<longleftrightarrow> x - a = 0 \<and> (y - b = -1 \<or> y - b = 0 \<or> y - b = 1)"
    unfolding t by auto
  define u v where "u = x - a" and "v = y - b"
  have xy: "x = a + u" "y = b + v" by (simp_all add: u_def v_def)
  let ?F = "if v = 0 then 3 else if v = 1 \<or> v = -1 then 2 else if v = 2 \<or> v = -2 then (1::nat) else 0"
  have left: "(of_bool (truthy (getCell (grid e) (x - 1) (y - 1))) :: nat)
             + of_bool (truthy (getCell (grid e) (x - 1) y))
             + of_bool (truthy (getCell (grid e) (x - 1) (y + 1)))
           = (if u = 1 then ?F else 0)"
    unfolding tr xy using count3 [of v] by (simp add: algebra_simps)
  have right: "(of_bool (truthy (getCell (grid e) (x + 1) (y - 1))) :: nat)
             + of_bool (truthy (getCell (grid e) (x + 1) y))
             + of_bool (truthy (getCell (grid e) (x + 1) (y + 1)))
           = (if u = -1 then ?F else 0)"
    unfolding tr xy using count3 [of v] by (simp add: algebra_simps)
  have mid: "(of_bool (truthy (getCell (grid e) x (y - 1))) :: nat)
             + of_bool (truthy (getCell (grid e) x (y + 1)))
           = (if u = 0 then (if v = 0 then 2 else if v = 1 \<or> v = -1 \<or> v = 2 \<or> v = -2 then 1 else 0) else 0)"
    unfolding tr xy using count2 [of v] by (simp add: algebra_simps)
  have cnt: "countNeighbors (grid e) x y =
      (if u = 1 then ?F else 0)
      + (if u = 0 then (if v = 0 then 2 else if v = 1 \<or> v = -1 \<or> v = 2 \<or> v = -2 then 1 else 0) else 0)
      + (if u = -1 then ?F else 0)"
    unfolding left [symmetric] mid [symmetric] right [symmetric] countNeighbors_eq by simp
  have st: "getCell (grid e) x y = Num 1 \<longleftrightarrow> u = 0 \<and> (v = -1 \<or> v = 0 \<or> v = 1)"
    unfolding t xy by auto
  have mem: "(x, y) \<in> horizontal3 a b \<longleftrightarrow> v = 0 \<and> (u = -1 \<or> u = 0 \<or> u = 1)"
    unfolding xy horizontal3_def by auto
  show ?thesis
    unfolding nextState_def Let_def cnt st mem r by auto
qed

lemma pattern_step:
  assumes ok: "engine_ok e" and b: "0 \<notin> bornRules e"
    and n: "\<And>x y. nextState e x y = (if (x, y) \<in> S then 1 else 0)"
  shows "cells_are (grid (computeNextGen e)) S" "population (computeNextGen e) = card S"
proof -
  have c: "0 < gChunkSize e" using ok by (rule engine_ok_pos)
  have reg: "\<And>x y. (x, y) \<in> S \<Longrightarrow> (x, y) \<in> set (regionCells e)"
    using nextState_in_region [OF ok b] n by simp
  show "cells_are (grid (computeNextGen e)) S"
    unfolding cells_are_def using reg by (auto simp: getCell_next [OF c] n)
  have "set (bornCells e) = S" using reg by (auto simp: bornCells_def n)
  then show "population (computeNextGen e) = card S"
    using c by (simp add: population_computeNextGen distinct_card [OF distinct_bornCells, symmetric])
qed

lemma card_vertical3: "card (vertical3 a b) = 3"
  by (simp add: vertical3_def)

lemma card_horizontal3: "card (horizontal3 a b) = 3"
  by (simp add: horizontal3_def)

text \<open>
  The blinker whose live cells all hold state 1: two steps, for any centre and any
  well-formed state.
\<close>

lemma blinker_state1_oscillates:
  assumes ok: "engine_ok e" and r: "bornRules e = {3}" "surviveRules e = {2, 3}"
    and g: "cells_are (grid e) (horizontal3 a b)"
  shows "cells_are (grid (computeNextGen e)) (vertical3 a b)
       \<and> generation (computeNextGen e) = generation e + 1
       \<and> population (computeNextGen e) = 3
       \<and> cells_are (grid (computeNextGen (computeNextGen e))) (horizontal3 a b)
       \<and> generation (computeNextGen (computeNextGen e)) = generation e + 2
       \<and> population (computeNextGen (computeNextGen e)) = 3"
proof -
  let ?e1 = "computeNextGen e"
  have b: "0 \<notin> bornRules e" using r by simp
  have n1: "\<And>x y. nextState e x y = (if (x, y) \<in> vertical3 a b then 1 else 0)"
    using r g by (rule nextState_horizontal)
  have g1: "cells_are (grid ?e1) (vertical3 a b)" and p1: "population ?e1 = 3"
    using pattern_step [OF ok b n1] by (simp_all add: card_vertical3)
  have ok1: "engine_ok ?e1" using ok by (intro engine_ok_computeNextGen engine_ok_pos)
  have r1: "bornRules ?e1 = {3}" "surviveRules ?e1 = {2, 3}" using r by (simp_all add: rules_computeNextGen)
  have b1: "0 \<notin> bornRules ?e1" using r1 by simp
  have n2: "\<And>x y. nextState ?e1 x y = (if (x, y) \<in> horizontal3 a b then 1 else 0)"
    using r1 g1 by (rule nextState_vertical)
  have g2: "cells_are (grid (computeNextGen ?e1)) (horizontal3 a b)" and p2: "population (computeNextGen ?e1) = 3"
    using pattern_step [OF ok1 b1 n2] by (simp_all add: card_horizontal3)
  show ?thesis using g1 p1 g2 p2 by (simp add: generation_computeNextGen)
qed

text \<open>Two live cells with one dead cell between them: no cell is alive in the next state.\<close>

lemma pair3:
  "(of_bool (v - 1 = -1 \<or> v - 1 = (1::int)) :: nat) + of_bool (v = -1 \<or> v = 1) + of_bool (v + 1 = -1 \<or> v + 1 = 1)
   = (if v = 0 then 2 else if v = 1 \<or> v = -1 \<or> v = 2 \<or> v = -2 then 1 else 0)"
  by (auto simp: of_bool_def)

lemma pair2:
  "(of_bool (v - 1 = -1 \<or> v - 1 = (1::int)) :: nat) + of_bool (v + 1 = -1 \<or> v + 1 = 1)
   = (if v = 0 then 2 else if v = 2 \<or> v = -2 then 1 else 0)"
  by (auto simp: of_bool_def)

lemma nextState_pair:
  assumes r: "bornRules e = {3}" "surviveRules e = {2, 3}"
    and g: "cells_are (grid e) {(0, -1), (0, 1)}"
  shows "nextState e x y = (if (x, y) \<in> {} then 1 else 0)"
proof -
  have t: "\<And>x y. getCell (grid e) x y = (if x = 0 \<and> (y = -1 \<or> y = 1) then Num 1 else Num 0)"
    using g by (auto simp: cells_are_def)
  have tr: "\<And>x y. truthy (getCell (grid e) x y) \<longleftrightarrow> x = 0 \<and> (y = -1 \<or> y = 1)"
    unfolding t by auto
  let ?F = "if y = 0 then 2 else if y = 1 \<or> y = -1 \<or> y = 2 \<or> y = -2 then (1::nat) else 0"
  have left: "(of_bool (truthy (getCell (grid e) (x - 1) (y - 1))) :: nat)
             + of_bool (truthy (getCell (grid e) (x - 1) y))
             + of_bool (truthy (getCell (grid e) (x - 1) (y + 1)))
           = (if x = 1 then ?F else 0)"
    unfolding tr using pair3 [of y] by simp
  have right: "(of_bool (truthy (getCell (grid e) (x + 1) (y - 1))) :: nat)
             + of_bool (truthy (getCell (grid e) (x + 1) y))
             + of_bool (truthy (getCell (grid e) (x + 1) (y + 1)))
           = (if x = -1 then ?F else 0)"
    unfolding tr using pair3 [of y] by simp
  have mid: "(of_bool (truthy (getCell (grid e) x (y - 1))) :: nat)
             + of_bool (truthy (getCell (grid e) x (y + 1)))
           = (if x = 0 then (if y = 0 then 2 else if y = 2 \<or> y = -2 then 1 else 0) else 0)"
    unfolding tr using pair2 [of y] by simp
  have cnt: "countNeighbors (grid e) x y =
      (if x = 1 then ?F else 0)
      + (if x = 0 then (if y = 0 then 2 else if y = 2 \<or> y = -2 then 1 else 0) else 0)
      + (if x = -1 then ?F else 0)"
    unfolding left [symmetric] mid [symmetric] right [symmetric] countNeighbors_eq by simp
  have st: "getCell (grid e) x y = Num 1 \<longleftrightarrow> x = 0 \<and> (y = -1 \<or> y = 1)"
    unfolding t by auto
  show ?thesis
    unfolding nextState_def Let_def cnt st r by auto
qed

section \<open>The concrete states\<close>

text \<open>
  Facts of the states defined above.
\<close>

lemma engine_ok_blinker: "engine_ok blinker"
  by (simp add: engine_ok_def blinker_def new_GameOfLife_def chunkSize_setCell grid_ok_setCell grid_ok_new)
     (simp add: new_ChunkManager_def)

lemma rules_blinker: "bornRules blinker = {3}" "surviveRules blinker = {2, 3}"
  by (simp_all add: blinker_def new_GameOfLife_def)

lemma cells_blinker: "cells_are (grid blinker) (horizontal3 0 0)"
  unfolding cells_are_def blinker_def horizontal3_def
  by (simp add: getCell_setCell grid_ok_setCell grid_ok_new getCell_new)

lemma keys_blinker: "fst ` set (chunks (grid blinker)) = {getChunkKey (-1) 0, getChunkKey 0 0}"
  by (auto simp: blinker_def keys_setCell chunkSize_setCell new_ChunkManager_def)

lemma getCell_blinker:
  "getCell (grid blinker) x y = (if y = 0 \<and> (x = -1 \<or> x = 0 \<or> x = 1) then Num 1 else Num 0)"
  using cells_blinker by (auto simp: cells_are_def horizontal3_def)

lemma engine_ok_born0: "engine_ok born0"
  unfolding born0_def by (intro engine_ok_applyRule engine_ok_new)

lemma getCell_odd_blinker:
  "getCell (grid odd_blinker) x y =
     (if x = 1 \<and> y = 0 then Num 1 else if x = 0 \<and> y = 0 then Num 2
      else if x = -1 \<and> y = 0 then Num 1 else Num 0)"
proof -
  let ?g0 = "new_ChunkManager 32"
  let ?g1 = "setCell ?g0 (-1) 0 1"
  let ?g2 = "setCell ?g1 0 0 2"
  have ok0: "grid_ok ?g0" by (simp add: grid_ok_new)
  have ok1: "grid_ok ?g1" using ok0 by (rule grid_ok_setCell)
  have ok2: "grid_ok ?g2" using ok1 by (rule grid_ok_setCell)
  have g: "grid odd_blinker = setCell ?g2 1 0 1" by (simp add: odd_blinker_def)
  have m: "(1::int) mod 256 = 1" "(2::int) mod 256 = 2" by simp_all
  show ?thesis
    unfolding g getCell_setCell [OF ok2] getCell_setCell [OF ok1] getCell_setCell [OF ok0] getCell_new m
    by (rule refl)
qed

lemma engine_ok_odd_blinker: "engine_ok odd_blinker"
  by (simp add: engine_ok_def odd_blinker_def new_GameOfLife_def chunkSize_setCell grid_ok_setCell grid_ok_new)
     (simp add: new_ChunkManager_def)

lemma liveCells_odd_blinker: "liveCells (grid odd_blinker) = horizontal3 0 0"
  unfolding liveCells_def horizontal3_def getCell_odd_blinker by (auto split: if_splits)

lemma rules_odd_blinker: "bornRules odd_blinker = {3}" "surviveRules odd_blinker = {2, 3}"
  by (simp_all add: odd_blinker_def new_GameOfLife_def)

lemma nextState_odd_blinker:
  "nextState odd_blinker x y = (if x = 0 \<and> (y = -1 \<or> y = 1) then 1 else 0)"
proof -
  have tr: "\<And>x y. truthy (getCell (grid odd_blinker) x y) \<longleftrightarrow> y = 0 \<and> (x = -1 \<or> x = 0 \<or> x = 1)"
    unfolding getCell_odd_blinker by auto
  let ?F = "if x = 0 then 3 else if x = 1 \<or> x = -1 then 2 else if x = 2 \<or> x = -2 then (1::nat) else 0"
  have top: "(of_bool (truthy (getCell (grid odd_blinker) (x - 1) (y - 1))) :: nat)
             + of_bool (truthy (getCell (grid odd_blinker) x (y - 1)))
             + of_bool (truthy (getCell (grid odd_blinker) (x + 1) (y - 1)))
           = (if y = 1 then ?F else 0)"
    unfolding tr using count3 [of x] by simp
  have bot: "(of_bool (truthy (getCell (grid odd_blinker) (x - 1) (y + 1))) :: nat)
             + of_bool (truthy (getCell (grid odd_blinker) x (y + 1)))
             + of_bool (truthy (getCell (grid odd_blinker) (x + 1) (y + 1)))
           = (if y = -1 then ?F else 0)"
    unfolding tr using count3 [of x] by simp
  have mid: "(of_bool (truthy (getCell (grid odd_blinker) (x - 1) y)) :: nat)
             + of_bool (truthy (getCell (grid odd_blinker) (x + 1) y))
           = (if y = 0 then (if x = 0 then 2 else if x = 1 \<or> x = -1 \<or> x = 2 \<or> x = -2 then 1 else 0) else 0)"
    unfolding tr using count2 [of x] by simp
  have cnt: "countNeighbors (grid odd_blinker) x y =
      (if y = 1 then ?F else 0)
      + (if y = 0 then (if x = 0 then 2 else if x = 1 \<or> x = -1 \<or> x = 2 \<or> x = -2 then 1 else 0) else 0)
      + (if y = -1 then ?F else 0)"
    unfolding top [symmetric] mid [symmetric] bot [symmetric] countNeighbors_eq by simp
  have st: "getCell (grid odd_blinker) x y = Num 1 \<longleftrightarrow> y = 0 \<and> (x = -1 \<or> x = 1)"
    unfolding getCell_odd_blinker by auto
  show ?thesis
    unfolding nextState_def Let_def cnt st rules_odd_blinker by auto
qed

lemma chunks_grid_31_32:
  "chunks grid_31_32 =
     [(getChunkKey 0 0, typed_set (new_chunk (32 * 32)) (0 * 32 + 31) 1),
      (getChunkKey 1 0, typed_set (new_chunk (32 * 32)) (0 * 32 + 0) 1)]"
  by (simp add: grid_31_32_def chunks_setCell chunkSize_setCell new_ChunkManager_def getChunkKey_inj)

lemma key_strings:
  "getChunkKey 0 0 = ''0,0''" "getChunkKey 1 0 = ''1,0''" "getChunkKey (-1) 0 = ''-1,0''"
  by code_simp+

lemma chunks_grid_m1:
  "chunks grid_m1 = [(getChunkKey (-1) 0, typed_set (new_chunk (32 * 32)) (0 * 32 + 31) 1)]"
  by (simp add: grid_m1_def chunks_setCell new_ChunkManager_def)

lemma grid_ok_31_32: "grid_ok grid_31_32"
  by (simp add: grid_31_32_def grid_ok_setCell grid_ok_new)

section \<open>The claims of the specification\<close>

text \<open>
  Claim C1, as amended. The evaluation region of \<open>computeNextGen\<close> is the cells of every
  chunk whose key is stored and of its eight neighbouring chunks. When 0 is not a birth count (the
  rule editor offers birth counts 1 to 8 only, and no preset lists 0), the region omits
  no cell where change is possible: every cell that reads alive, and every cell whose
  next state is alive (by the rule as the specification words it, and as the code
  computes it), lies inside the region; every cell outside it is dead in the source grid,
  stays dead by the rule, and is dead in the destination grid.
\<close>

theorem evaluation_region_sound:
  assumes "engine_ok e" and "0 \<notin> bornRules e"
  shows "((x, y) \<in> set (regionCells e) \<longleftrightarrow>
           (\<exists>cx cy. getChunkKey cx cy \<in> fst ` set (chunks (grid e))
              \<and> \<bar>x div gChunkSize e - cx\<bar> \<le> 1 \<and> \<bar>y div gChunkSize e - cy\<bar> \<le> 1))
       \<and> (truthy (getCell (grid e) x y) \<longrightarrow> (x, y) \<in> set (regionCells e))
       \<and> (spec_nextAlive e x y \<longrightarrow> (x, y) \<in> set (regionCells e))
       \<and> (nextState e x y \<noteq> 0 \<longrightarrow> (x, y) \<in> set (regionCells e))
       \<and> ((x, y) \<notin> set (regionCells e) \<longrightarrow>
            getCell (grid (computeNextGen e)) x y = Num 0
            \<and> \<not> spec_nextAlive e x y \<and> \<not> truthy (getCell (grid e) x y))"
proof -
  have c: "0 < gChunkSize e" using assms(1) by (rule engine_ok_pos)
  show ?thesis
    using in_regionCells [OF assms(1), of x y] live_in_region [OF assms(1), of x y]
      spec_nextAlive_in_region [OF assms, of x y] nextState_in_region [OF assms, of x y]
      getCell_outside_region [OF c, of x y]
    by blast
qed

theorem evaluation_region_sound_witness:
  "engine_ok blinker \<and> 0 \<notin> bornRules blinker
   \<and> truthy (getCell (grid blinker) 1 0) \<and> (1, 0) \<in> set (regionCells blinker)
   \<and> spec_nextAlive blinker 0 (-1) \<and> nextState blinker 0 (-1) \<noteq> 0 \<and> (0, -1) \<in> set (regionCells blinker)
   \<and> (100, 0) \<notin> set (regionCells blinker)
   \<and> getCell (grid (computeNextGen blinker)) 100 0 = Num 0 \<and> \<not> spec_nextAlive blinker 100 0"
proof -
  have b: "0 \<notin> bornRules blinker" by (simp add: rules_blinker)
  have t: "truthy (getCell (grid blinker) 1 0)" by (simp add: getCell_blinker)
  have n: "nextState blinker 0 (-1) \<noteq> 0"
    using nextState_horizontal [OF rules_blinker cells_blinker, of 0 "-1"] by (simp add: vertical3_def)
  have s: "spec_nextAlive blinker 0 (-1)"
    using n by (subst spec_nextAlive_iff) (simp_all add: getCell_blinker)
  have c: "gChunkSize blinker = 32" by (simp add: blinker_def new_GameOfLife_def)
  have "\<not> (\<exists>cx cy. getChunkKey cx cy \<in> fst ` set (chunks (grid blinker))
          \<and> \<bar>100 div gChunkSize blinker - cx\<bar> \<le> 1 \<and> \<bar>0 div gChunkSize blinker - cy\<bar> \<le> 1)"
    unfolding keys_blinker c by (auto simp: getChunkKey_inj)
  then have out: "(100, 0) \<notin> set (regionCells blinker)"
    using evaluation_region_sound [OF engine_ok_blinker b, of 100 0] by blast
  show ?thesis
    using evaluation_region_sound [OF engine_ok_blinker b, of 1 0]
      evaluation_region_sound [OF engine_ok_blinker b, of 0 "-1"]
      evaluation_region_sound [OF engine_ok_blinker b, of 100 0]
      engine_ok_blinker b t n s out
    by blast
qed

text \<open>
  The claim as stated, for all rule sets within \<open>[0, 8]\<close>, fails when 0 is a birth count:
  on the empty grid the region is empty, yet the rule makes cell \<open>(0, 0)\<close> alive.
\<close>

theorem born_zero_outside_region:
  "engine_ok born0 \<and> bornRules born0 \<subseteq> {0..8} \<and> surviveRules born0 \<subseteq> {0..8}
   \<and> spec_nextAlive born0 0 0 \<and> nextState born0 0 0 = 1
   \<and> (0, 0) \<notin> set (regionCells born0)
   \<and> getCell (grid (computeNextGen born0)) 0 0 = Num 0"
proof -
  have g: "grid born0 = new_ChunkManager 32" and r: "bornRules born0 = {0}" "surviveRules born0 = {}"
    and c: "gChunkSize born0 = 32"
    by (simp_all add: born0_def applyRule_eq new_GameOfLife_def)
  have n: "countNeighbors (grid born0) 0 0 = 0" by (simp add: g countNeighbors_eq getCell_new)
  have reg: "regionCells born0 = []"
    by (simp add: regionCells_def checkCoords_def g chunksToCheck_def new_ChunkManager_def)
  have "getCell (grid (computeNextGen born0)) 0 0 = Num 0"
    by (rule getCell_outside_region) (simp_all add: c reg)
  moreover have "nextState born0 0 0 = 1"
    by (simp add: nextState_def Let_def n r) (simp add: g getCell_new)
  moreover have "spec_nextAlive born0 0 0"
    by (simp add: spec_nextAlive_def n r) (simp add: g getCell_new)
  ultimately show ?thesis using engine_ok_born0 by (simp add: r reg)
qed

text \<open>
  Claim C2. For every evaluated cell the destination state should be 1 exactly when the
  cell is alive (its state is not 0) and its neighbour count is in \<open>survive\<close>, or it is
  dead and the count is in \<open>born\<close>, for any nonzero stored state. The code tests
  \<open>state === 1\<close>: under the Conway rule the centre of a blinker stored with state 2 has two
  live neighbours, is evaluated, and is left dead, where the rule keeps it alive.
\<close>

theorem state_two_cell_dies:
  "getCell (grid odd_blinker) 0 0 = Num 2
   \<and> countNeighbors (grid odd_blinker) 0 0 = 2
   \<and> 2 \<in> surviveRules odd_blinker \<and> 2 \<notin> bornRules odd_blinker
   \<and> spec_nextAlive odd_blinker 0 0
   \<and> (0, 0) \<in> set (regionCells odd_blinker)
   \<and> nextState odd_blinker 0 0 = 0
   \<and> getCell (grid (computeNextGen odd_blinker)) 0 0 = Num 0"
proof -
  have r: "bornRules odd_blinker = {3}" "surviveRules odd_blinker = {2, 3}"
    and c: "0 < gChunkSize odd_blinker"
    by (simp_all add: odd_blinker_def new_GameOfLife_def)
  have s: "getCell (grid odd_blinker) 0 0 = Num 2" by (simp add: getCell_odd_blinker)
  have n: "countNeighbors (grid odd_blinker) 0 0 = 2"
    by (simp add: countNeighbors_eq getCell_odd_blinker)
  have a: "spec_nextAlive odd_blinker 0 0" by (simp add: spec_nextAlive_def s n r)
  have reg: "(0, 0) \<in> set (regionCells odd_blinker)"
    using engine_ok_odd_blinker by (rule live_in_region) (simp add: s)
  have ns: "nextState odd_blinker 0 0 = 0" by (simp add: nextState_def Let_def s n r)
  have "getCell (grid (computeNextGen odd_blinker)) 0 0 = Num 0"
    by (simp add: getCell_next [OF c] ns)
  then show ?thesis using s n a reg ns by (simp add: r)
qed

text \<open>
  Claim C3, as amended. For all integers \<open>x\<close> and \<open>y\<close>, of either sign, \<open>setCell\<close> and
  then \<open>getCell\<close> at the same coordinate returns the state reduced modulo 256, the byte
  that the typed array stores; it is the state itself for every state from 0 to 255.
\<close>

theorem set_then_get:
  assumes "grid_ok g"
  shows "getCell (setCell g x y v) x y = Num (v mod 256)
       \<and> (0 \<le> v \<and> v < 256 \<longrightarrow> getCell (setCell g x y v) x y = Num v)"
  using assms by (simp add: getCell_setCell)

theorem set_then_get_witness:
  "grid_ok (new_ChunkManager 32) \<and> (0::int) \<le> 255 \<and> (255::int) < 256
   \<and> getCell (setCell (new_ChunkManager 32) (-1) (-33) 255) (-1) (-33) = Num 255
   \<and> getCell (setCell (new_ChunkManager 32) 70 5 1) 70 5 = Num 1"
  using set_then_get [of "new_ChunkManager 32" "-1" "-33" 255]
    set_then_get [of "new_ChunkManager 32" 70 5 1]
  by (simp add: grid_ok_new)

text \<open>
  The claim as stated, for any state value, fails at state 256, which reads back as 0.
\<close>

theorem set_256_reads_0:
  "grid_ok (new_ChunkManager 32)
   \<and> getCell (setCell (new_ChunkManager 32) 0 0 256) 0 0 = Num 0
   \<and> getCell (setCell (new_ChunkManager 32) 0 0 256) 0 0 \<noteq> Num 256"
  by (simp add: grid_ok_new getCell_setCell)

text \<open>
  Claim C4. The mapping from a coordinate to its chunk is floor division, and the local
  offset \<open>((x % c) + c) % c\<close> is the floored, never negative modulo. With chunk size 32,
  cell \<open>(31, 0)\<close> lands in chunk \<open>(0, 0)\<close> and cell \<open>(32, 0)\<close> in the adjacent chunk
  \<open>(1, 0)\<close>, each read and overwritten without touching the other; cell \<open>(-1, 0)\<close>
  lands in chunk \<open>(-1, 0)\<close> at local offset \<open>(31, 0)\<close>, and chunk \<open>(0, 0)\<close> is neither
  created nor changed by it.
\<close>

theorem chunk_mapping_floors:
  assumes "0 < c"
  shows "floor_div x c = x div c \<and> local_offset x c = x mod c
       \<and> 0 \<le> local_offset x c \<and> local_offset x c < c
       \<and> x = floor_div x c * c + local_offset x c
       \<and> map fst (chunks grid_31_32) = [''0,0'', ''1,0'']
       \<and> getChunk grid_31_32 0 0 = Some (typed_set (new_chunk (32 * 32)) (0 * 32 + 31) 1)
       \<and> getChunk grid_31_32 1 0 = Some (typed_set (new_chunk (32 * 32)) (0 * 32 + 0) 1)
       \<and> getCell grid_31_32 31 0 = Num 1 \<and> getCell grid_31_32 32 0 = Num 1
       \<and> getCell (setCell grid_31_32 32 0 0) 31 0 = Num 1
       \<and> getCell (setCell grid_31_32 32 0 0) 32 0 = Num 0
       \<and> getCell (setCell grid_31_32 31 0 0) 31 0 = Num 0
       \<and> getCell (setCell grid_31_32 31 0 0) 32 0 = Num 1
       \<and> floor_div (-1) 32 = -1 \<and> local_offset (-1) 32 = 31
       \<and> map fst (chunks grid_m1) = [''-1,0'']
       \<and> getChunk grid_m1 (-1) 0 = Some (typed_set (new_chunk (32 * 32)) (0 * 32 + 31) 1)
       \<and> getChunk grid_m1 0 0 = None
       \<and> getCell grid_m1 (-1) 0 = Num 1 \<and> getCell grid_m1 0 0 = Num 0
       \<and> getChunk (setCell grid_31_32 (-1) 0 1) 0 0 = getChunk grid_31_32 0 0"
proof -
  have gen: "floor_div x c = x div c \<and> local_offset x c = x mod c
       \<and> 0 \<le> local_offset x c \<and> local_offset x c < c
       \<and> x = floor_div x c * c + local_offset x c"
    using assms by (simp add: floor_div_eq_div local_offset_eq_mod)
  have a: "map fst (chunks grid_31_32) = [''0,0'', ''1,0'']"
    "getChunk grid_31_32 0 0 = Some (typed_set (new_chunk (32 * 32)) (0 * 32 + 31) 1)"
    "getChunk grid_31_32 1 0 = Some (typed_set (new_chunk (32 * 32)) (0 * 32 + 0) 1)"
    by (simp_all add: getChunk_def chunks_grid_31_32 getChunkKey_inj) (simp add: key_strings)
  have g0: "\<And>x y. getCell grid_31_32 x y = (if x = 32 \<and> y = 0 then Num 1 else if x = 31 \<and> y = 0 then Num 1 else Num 0)"
    by (simp add: grid_31_32_def getCell_setCell grid_ok_setCell grid_ok_new getCell_new)
  have b: "getCell grid_31_32 31 0 = Num 1" "getCell grid_31_32 32 0 = Num 1"
    "getCell (setCell grid_31_32 32 0 0) 31 0 = Num 1"
    "getCell (setCell grid_31_32 32 0 0) 32 0 = Num 0"
    "getCell (setCell grid_31_32 31 0 0) 31 0 = Num 0"
    "getCell (setCell grid_31_32 31 0 0) 32 0 = Num 1"
    by (simp_all add: getCell_setCell [OF grid_ok_31_32] g0)
  have m: "floor_div (-1) 32 = -1" "local_offset (-1) 32 = 31"
    by (simp_all add: floor_div_eq_div local_offset_eq_mod)
  have d: "map fst (chunks grid_m1) = [''-1,0'']"
    "getChunk grid_m1 (-1) 0 = Some (typed_set (new_chunk (32 * 32)) (0 * 32 + 31) 1)"
    "getChunk grid_m1 0 0 = None"
    by (simp_all add: getChunk_def chunks_grid_m1 getChunkKey_inj) (simp add: key_strings)
  have e: "getCell grid_m1 (-1) 0 = Num 1" "getCell grid_m1 0 0 = Num 0"
    by (simp_all add: grid_m1_def getCell_setCell grid_ok_new getCell_new)
  have cs: "chunkSize grid_31_32 = 32"
    by (simp add: grid_31_32_def chunkSize_setCell new_ChunkManager_def)
  have f: "getChunk (setCell grid_31_32 (-1) 0 1) 0 0 = getChunk grid_31_32 0 0"
    by (simp add: getChunk_def chunks_setCell cs update_conv' getChunkKey_inj)
  show ?thesis using gen a b m d e f by simp
qed

theorem chunk_mapping_floors_witness:
  "(0::int) < 32 \<and> floor_div (-1) 32 = -1 \<and> local_offset (-1) 32 = 31
   \<and> floor_div (-33) 32 = -2 \<and> local_offset (-33) 32 = 31
   \<and> floor_div 31 32 = 0 \<and> local_offset 31 32 = 31
   \<and> floor_div 32 32 = 1 \<and> local_offset 32 32 = 0"
  using chunk_mapping_floors [of 32 "-1"] chunk_mapping_floors [of 32 "-33"]
    chunk_mapping_floors [of 32 31] chunk_mapping_floors [of 32 32]
  by simp

text \<open>
  Claim C5. \<open>getCell\<close> never modifies the grid: the manager after the call, its chunk
  map and every stored chunk, is the manager before the call. Where the owning chunk of
  the coordinate does not exist, it returns 0.
\<close>

theorem getCell_reads_only:
  "snd (getCell_run g x y) = g
   \<and> (getChunk g (floor_div x (chunkSize g)) (floor_div y (chunkSize g)) = None \<longrightarrow> getCell g x y = Num 0)"
  by (simp add: getCell_def getCell_run_def getChunk_def Let_def split: option.splits)

theorem getCell_reads_only_witness:
  "getChunk (setCell (new_ChunkManager 32) 0 0 1) (floor_div 40 32) (floor_div (-3) 32) = None
   \<and> getCell (setCell (new_ChunkManager 32) 0 0 1) 40 (-3) = Num 0
   \<and> snd (getCell_run (setCell (new_ChunkManager 32) 0 0 1) 40 (-3)) = setCell (new_ChunkManager 32) 0 0 1"
proof -
  let ?g = "setCell (new_ChunkManager 32) 0 0 1"
  have cs: "chunkSize ?g = 32" by (simp add: chunkSize_setCell new_ChunkManager_def)
  have "chunks ?g = [(getChunkKey 0 0, typed_set (new_chunk (32 * 32)) 0 1)]"
    by (simp add: chunks_setCell new_ChunkManager_def)
  then have n: "getChunk ?g (floor_div 40 32) (floor_div (-3) 32) = None"
    by (simp add: getChunk_def getChunkKey_inj floor_div_eq_div)
  show ?thesis using getCell_reads_only [of ?g 40 "-3"] n by (simp add: cs)
qed

text \<open>
  Claim C6. The generation counter is strictly monotonic: from generation \<open>G\<close>, after
  \<open>N\<close> calls of \<open>computeNextGen\<close> the engine reports generation \<open>G + N\<close>, whatever the
  grid holds, an empty or all-dead grid included.
\<close>

theorem generation_advances:
  "generation ((computeNextGen ^^ n) e) = generation e + n"
  by (induction n) (simp_all add: generation_computeNextGen)

text \<open>
  Claim C7. After \<open>computeNextGen\<close> the population counter is the number of live cells
  stored in the new grid, which is the number of coordinates that read alive: the cells
  written are exactly the live cells of the new grid, each written and counted once.
\<close>

theorem population_is_live_count:
  assumes "engine_ok e"
  shows "population (computeNextGen e) = countLive (grid (computeNextGen e))
       \<and> population (computeNextGen e) = card (liveCells (grid (computeNextGen e)))
       \<and> finite (liveCells (grid (computeNextGen e)))
       \<and> population (computeNextGen e) = length (bornCells e)
       \<and> distinct (bornCells e)
       \<and> set (bornCells e) = liveCells (grid (computeNextGen e))"
  using engine_ok_pos [OF assms]
  by (simp add: population_countLive [symmetric] population_card [symmetric]
      liveCells_computeNextGen distinct_bornCells population_computeNextGen distinct_card)

theorem population_is_live_count_witness:
  "engine_ok blinker
   \<and> population (computeNextGen blinker) = 3
   \<and> countLive (grid (computeNextGen blinker)) = 3
   \<and> liveCells (grid (computeNextGen blinker)) = {(0, -1), (0, 0), (0, 1)}"
proof -
  have b: "0 \<notin> bornRules blinker" by (simp add: rules_blinker)
  have n: "\<And>x y. nextState blinker x y = (if (x, y) \<in> vertical3 0 0 then 1 else 0)"
    using rules_blinker cells_blinker by (rule nextState_horizontal)
  have p: "population (computeNextGen blinker) = 3"
    using pattern_step(2) [OF engine_ok_blinker b n] by (simp add: card_vertical3)
  have "cells_are (grid (computeNextGen blinker)) (vertical3 0 0)"
    using pattern_step(1) [OF engine_ok_blinker b n] .
  then have l: "liveCells (grid (computeNextGen blinker)) = {(0, -1), (0, 0), (0, 1)}"
    by (auto simp: liveCells_def cells_are_def vertical3_def)
  show ?thesis using population_is_live_count [OF engine_ok_blinker] engine_ok_blinker p l by simp
qed

text \<open>
  Claim C8. \<open>applyRule\<close> replaces both rule sets by the members of the preset's arrays
  and nothing else: the grid, the generation counter and the population counter are
  unchanged, no member of the previous sets remains unless listed again, and the next
  \<open>computeNextGen\<close> is the one of the same state under the new rule sets.
\<close>

theorem applyRule_replaces_rules_only:
  "applyRule r e = e\<lparr>bornRules := set (rule_b r), surviveRules := set (rule_s r)\<rparr>
   \<and> grid (applyRule r e) = grid e
   \<and> generation (applyRule r e) = generation e
   \<and> population (applyRule r e) = population e
   \<and> bornRules (applyRule r e) = set (rule_b r)
   \<and> surviveRules (applyRule r e) = set (rule_s r)
   \<and> computeNextGen (applyRule r e) =
       computeNextGen (e\<lparr>bornRules := set (rule_b r), surviveRules := set (rule_s r)\<rparr>)"
  by (simp add: applyRule_eq)

text \<open>
  Claim C9. Under the Conway rule (born \<open>{3}\<close>, survive \<open>{2, 3}\<close>) a grid whose live
  cells are exactly a horizontal segment of three should become exactly the vertical
  segment of three with the same centre after one \<open>computeNextGen\<close>, and the horizontal
  segment again after two, with population 3 throughout. The code does so when every
  live cell holds state 1 (\<open>blinker_state1_oscillates\<close>). With the centre of the segment
  stored as state 2 the live cells are the same segment, but the test \<open>state === 1\<close>
  lets the centre die: one step leaves the two cells above and below the centre,
  population 2, and the second step leaves no live cell.
\<close>

theorem blinker_state_two_decays:
  "bornRules odd_blinker = {3} \<and> surviveRules odd_blinker = {2, 3}
   \<and> liveCells (grid odd_blinker) = horizontal3 0 0
   \<and> liveCells (grid (computeNextGen odd_blinker)) = {(0, -1), (0, 1)}
   \<and> liveCells (grid (computeNextGen odd_blinker)) \<noteq> vertical3 0 0
   \<and> population (computeNextGen odd_blinker) = 2
   \<and> generation (computeNextGen odd_blinker) = generation odd_blinker + 1
   \<and> liveCells (grid (computeNextGen (computeNextGen odd_blinker))) = {}
   \<and> population (computeNextGen (computeNextGen odd_blinker)) = 0"
proof -
  let ?e1 = "computeNextGen odd_blinker"
  have b: "0 \<notin> bornRules odd_blinker" by (simp add: rules_odd_blinker)
  have n: "\<And>x y. nextState odd_blinker x y = (if (x, y) \<in> {(0, -1), (0, 1)} then 1 else 0)"
    by (simp add: nextState_odd_blinker)
  have c: "cells_are (grid ?e1) {(0, -1), (0, 1)}"
    using engine_ok_odd_blinker b n by (rule pattern_step(1))
  have "population ?e1 = card {(0 :: int, -1 :: int), (0, 1)}"
    using engine_ok_odd_blinker b n by (rule pattern_step(2))
  then have p: "population ?e1 = 2" by simp
  have l: "liveCells (grid ?e1) = {(0, -1), (0, 1)}"
    using c by (auto simp: liveCells_def cells_are_def split: if_splits)
  have "(0, 0) \<in> vertical3 0 0" by (simp add: vertical3_def)
  moreover have "(0 :: int, 0 :: int) \<notin> {(0, -1), (0, 1)}" by simp
  ultimately have ne: "liveCells (grid ?e1) \<noteq> vertical3 0 0"
    unfolding l by metis
  have ok1: "engine_ok ?e1"
    using engine_ok_odd_blinker by (intro engine_ok_computeNextGen engine_ok_pos)
  have r1: "bornRules ?e1 = {3}" "surviveRules ?e1 = {2, 3}"
    by (simp_all add: rules_computeNextGen rules_odd_blinker)
  have b1: "0 \<notin> bornRules ?e1" using r1 by simp
  have n2: "\<And>x y. nextState ?e1 x y = (if (x, y) \<in> {} then 1 else 0)"
    using r1 c by (rule nextState_pair)
  have c2: "cells_are (grid (computeNextGen ?e1)) {}" using ok1 b1 n2 by (rule pattern_step(1))
  have "population (computeNextGen ?e1) = card ({} :: (int \<times> int) set)"
    using ok1 b1 n2 by (rule pattern_step(2))
  then have p2: "population (computeNextGen ?e1) = 0" by simp
  have l2: "liveCells (grid (computeNextGen ?e1)) = {}"
    using c2 by (auto simp: liveCells_def cells_are_def)
  show ?thesis
    using rules_odd_blinker liveCells_odd_blinker l ne p l2 p2 by (simp add: generation_computeNextGen)
qed

text \<open>
  Claim C10. The grid that \<open>computeNextGen\<close> produces is sparse at chunk granularity:
  every chunk stored in it contains at least one live cell.
\<close>

theorem next_grid_chunks_have_life:
  assumes "engine_ok e"
  shows "\<forall>(k, c) \<in> set (chunks (grid (computeNextGen e))). \<exists>w \<in> set c. w \<noteq> 0"
proof -
  have "list_all (\<lambda>(k, c). has_live c) (chunks (new_ChunkManager (gChunkSize e)))"
    by (simp add: new_ChunkManager_def)
  then have "list_all (\<lambda>(k, c). has_live c)
               (chunks (writeCells (bornCells e) (new_ChunkManager (gChunkSize e))))"
    using engine_ok_pos [OF assms] by (intro has_live_writeCells grid_ok_new)
  then have "list_all (\<lambda>(k, c). has_live c) (chunks (grid (computeNextGen e)))"
    by (simp add: computeNextGen_eq)
  then show ?thesis by (auto simp: list_all_iff has_live_def list_ex_iff)
qed

theorem next_grid_chunks_have_life_witness:
  "engine_ok blinker
   \<and> (\<exists>k c. (k, c) \<in> set (chunks (grid (computeNextGen blinker))) \<and> (\<exists>w. w \<in> set c \<and> w \<noteq> 0))"
proof -
  have c: "0 < gChunkSize blinker" using engine_ok_blinker by (rule engine_ok_pos)
  have b: "0 \<notin> bornRules blinker" by (simp add: rules_blinker)
  have n: "\<And>x y. nextState blinker x y = (if (x, y) \<in> vertical3 0 0 then 1 else 0)"
    using rules_blinker cells_blinker by (rule nextState_horizontal)
  have "cells_are (grid (computeNextGen blinker)) (vertical3 0 0)"
    using pattern_step(1) [OF engine_ok_blinker b n] .
  then have "getCell (grid (computeNextGen blinker)) 0 0 \<noteq> Num 0"
    by (simp add: cells_are_def vertical3_def)
  moreover have "0 < chunkSize (grid (computeNextGen blinker))"
    using engine_ok_computeNextGen [OF c] by (simp add: engine_ok_def grid_ok_def)
  ultimately have "getChunkKey (0 div chunkSize (grid (computeNextGen blinker))) (0 div chunkSize (grid (computeNextGen blinker)))
      \<in> fst ` set (chunks (grid (computeNextGen blinker)))"
    by (rule truthy_stored [rotated])
  then obtain k ch where kc: "(k, ch) \<in> set (chunks (grid (computeNextGen blinker)))" by auto
  then have "\<exists>w \<in> set ch. w \<noteq> 0" using next_grid_chunks_have_life [OF engine_ok_blinker] by blast
  then show ?thesis using kc engine_ok_blinker by blast
qed

end
